theory Spec2Isabelle
  imports Main "HOL-Library.Word" "HOL-Library.Char_ord" "HOL-Library.List_Lexorder"
begin

section \<open>Python values, errors and string operations\<close>

text \<open>
  The repository is Python. Exceptions are values of \<open>py_error\<close>; a function that may
  raise returns \<open>py_error + 'a\<close> with \<open>Inl\<close> the exception. Python strings are
  modelled as \<open>string\<close>, one \<open>char\<close> per code point, which covers the code points
  below 256.
\<close>

datatype py_error =
    AddressValueError
  | TypeError
  | IndexError
  | AttributeError
  | ValueError
  | EOFError

text \<open>\<open>s.startswith(p)\<close>.\<close>

definition startswith :: "string \<Rightarrow> string \<Rightarrow> bool" where
  "startswith s p = (take (length p) s = p)"

text \<open>
  \<open>s.split(sep)\<close> for a non-empty separator: the pieces between the non-overlapping
  occurrences of \<open>sep\<close>, found from the left. The second argument of \<open>split_from\<close> is the
  piece read so far. (Python raises ValueError on an empty separator; every separator
  in the sources is a non-empty literal.)
\<close>

fun split_from :: "string \<Rightarrow> string \<Rightarrow> string \<Rightarrow> string list" where
  "split_from sep cur [] = [cur]"
| "split_from sep cur (c # cs) =
     (if startswith (c # cs) sep
      then cur # split_from sep [] (drop (length sep - 1) cs)
      else split_from sep (cur @ [c]) cs)"

definition py_split :: "string \<Rightarrow> string \<Rightarrow> string list" where
  "py_split s sep = split_from sep [] s"

text \<open>\<open>s.replace(old, new)\<close> for a non-empty \<open>old\<close>: every non-overlapping occurrence,
  from the left.\<close>

fun py_replace :: "string \<Rightarrow> string \<Rightarrow> string \<Rightarrow> string" where
  "py_replace [] old new = []"
| "py_replace (c # cs) old new =
     (if startswith (c # cs) old
      then new @ py_replace (drop (length old - 1) cs) old new
      else c # py_replace cs old new)"

text \<open>\<open>s.strip()\<close>: leading and trailing white space removed. Below 256, Python's
  white space is the code points 9 to 13, 28 to 32, 133 (0x85) and 160 (0xA0).\<close>

definition is_space :: "char \<Rightarrow> bool" where
  "is_space c = ((9 \<le> (of_char c :: nat) \<and> (of_char c :: nat) \<le> 13)
     \<or> (28 \<le> (of_char c :: nat) \<and> (of_char c :: nat) \<le> 32)
     \<or> (of_char c :: nat) = 133 \<or> (of_char c :: nat) = 160)"

definition py_strip :: "string \<Rightarrow> string" where
  "py_strip s = rev (dropWhile is_space (rev (dropWhile is_space s)))"

text \<open>\<open>xs[i]\<close>: a negative index counts from the end, an index out of range raises
  IndexError.\<close>

definition py_index :: "'a list \<Rightarrow> int \<Rightarrow> py_error + 'a" where
  "py_index xs i =
     (if 0 \<le> i \<and> i < int (length xs) then Inr (xs ! nat i)
      else if i < 0 \<and> - i \<le> int (length xs) then Inr (xs ! nat (int (length xs) + i))
      else Inl IndexError)"

text \<open>
  Python values, as far as the utilities below look at them. A dictionary is the list
  of its items in iteration order; keys are strings. \<open>truthy\<close> is Python's truth test.
\<close>

datatype pyval =
    PNone
  | PBool bool
  | PInt int
  | PStr string
  | PList "pyval list"
  | PDict "(string \<times> pyval) list"

fun truthy :: "pyval \<Rightarrow> bool" where
  "truthy PNone = False"
| "truthy (PBool b) = b"
| "truthy (PInt i) = (i \<noteq> 0)"
| "truthy (PStr s) = (s \<noteq> [])"
| "truthy (PList xs) = (xs \<noteq> [])"
| "truthy (PDict d) = (d \<noteq> [])"

section \<open>Common utilities: \<open>get_pytest_name\<close>\<close>

text \<open>
  \<^verbatim>\<open>
  return (
      (os.environ.get("PYTEST_CURRENT_TEST").split(" (setup)")[0])
      .split("::")[1]
      .replace(" ", "_")
  )
  \<close>
  The argument is the value of the environment variable, \<open>None\<close> when it is unset:
  \<open>os.environ.get\<close> then gives Python's None, and \<open>None.split\<close> raises AttributeError.
\<close>

definition get_pytest_name :: "string option \<Rightarrow> py_error + string" where
  "get_pytest_name env =
     (case env of
        None \<Rightarrow> Inl AttributeError
      | Some ident \<Rightarrow>
          (case py_index (py_split ident '' (setup)'') 0 of
             Inl e \<Rightarrow> Inl e
           | Inr before_setup \<Rightarrow>
               (case py_index (py_split before_setup ''::'') 1 of
                  Inl e \<Rightarrow> Inl e
                | Inr segment \<Rightarrow> Inr (py_replace segment '' '' ''_''))))"

lemma get_pytest_name_two_segments:
  "get_pytest_name (Some ''tests/test_x.py::test_a b (setup)'') = Inr ''test_a_b''"
  by (simp add: get_pytest_name_def py_split_def py_index_def startswith_def)

text \<open>
  C5. The claim: the result is the segment after the last \<open>::\<close> of the identifier, so
  that \<open>tests/test_x.py::TestCls::test_a b (setup)\<close> gives \<open>test_a_b\<close>. The code takes
  index 1 of the split at \<open>::\<close>, the second segment: for this identifier it returns the
  class name \<open>TestCls\<close>.
\<close>

theorem get_pytest_name_class_based:
  "get_pytest_name (Some ''tests/test_x.py::TestCls::test_a b (setup)'') = Inr ''TestCls''"
  by (simp add: get_pytest_name_def py_split_def py_index_def startswith_def)

section \<open>Common utilities: \<open>ip_pool_to_list\<close>\<close>

text \<open>
  An \<open>IPv4Address\<close> holds an integer in \<open>[0, 2^32)\<close>: a 32-bit word read unsigned.
  The library's \<open>__add__\<close> builds a new address from \<open>int(self) + other\<close> and its
  constructor raises AddressValueError outside the range; nothing wraps around.
  Comparison of addresses is comparison of their integers.
\<close>

type_synonym ipv4 = "32 word"

definition ipv4_add :: "ipv4 \<Rightarrow> int \<Rightarrow> py_error + ipv4" where
  "ipv4_add a n =
     (if uint a + n < 0 \<or> 2 ^ 32 - 1 < uint a + n then Inl AddressValueError
      else Inr (word_of_int (uint a + n)))"

text \<open>
  \<^verbatim>\<open>
  ip_list = []
  while end_ip >= start_ip and start_ip != end_ip + 1:
      ip_list.append(start_ip)
      start_ip += 1
  return ip_list
  \<close>
  The loop test evaluates \<open>end_ip + 1\<close> whenever \<open>end_ip >= start_ip\<close> holds
  (\<open>and\<close> is short-circuit), and that addition may raise.
\<close>

function ip_pool_loop :: "ipv4 \<Rightarrow> ipv4 \<Rightarrow> ipv4 list \<Rightarrow> py_error + ipv4 list" where
  "ip_pool_loop start_ip end_ip ip_list =
     (if start_ip \<le> end_ip then
        (case ipv4_add end_ip 1 of
           Inl e \<Rightarrow> Inl e
         | Inr bound \<Rightarrow>
             if start_ip \<noteq> bound then
               (case ipv4_add start_ip 1 of
                  Inl e \<Rightarrow> Inl e
                | Inr next_ip \<Rightarrow> ip_pool_loop next_ip end_ip (ip_list @ [start_ip]))
             else Inr ip_list)
      else Inr ip_list)"
  by pat_completeness auto

lemma uint_word_of_int_32:
  "0 \<le> k \<Longrightarrow> k < 2 ^ 32 \<Longrightarrow> uint (word_of_int k :: 32 word) = k"
  using uint_word_of_int_eq [where 'a = 32, of k] by (simp add: take_bit_int_eq_self)

lemma ipv4_add_Inr: "ipv4_add a n = Inr b \<Longrightarrow> uint b = uint a + n"
proof -
  assume r: "ipv4_add a n = Inr b"
  then have lo: "0 \<le> uint a + n" and hi: "uint a + n < 2 ^ 32"
    and b: "b = word_of_int (uint a + n)"
    by (auto simp: ipv4_add_def split: if_splits)
  show ?thesis
    unfolding b using lo hi by (rule uint_word_of_int_32)
qed

lemma ipv4_add_one: "ipv4_add a 1 = Inr b \<Longrightarrow> uint b = uint a + 1"
  by (rule ipv4_add_Inr)

termination ip_pool_loop
proof (relation "measure (\<lambda>(s, e, acc). nat (uint e + 1 - uint s))")
  show "wf (measure (\<lambda>(s, e, acc). nat (uint e + 1 - uint s)))"
    by simp
next
  fix start_ip end_ip :: ipv4 and ip_list :: "ipv4 list" and bound next_ip :: ipv4
  assume le: "start_ip \<le> end_ip" and nxt: "ipv4_add start_ip 1 = Inr next_ip"
  have "uint start_ip \<le> uint end_ip"
    using le by (simp add: word_le_def)
  moreover have "uint next_ip = uint start_ip + 1"
    using nxt by (rule ipv4_add_one)
  ultimately show "((next_ip, end_ip, ip_list @ [start_ip]), (start_ip, end_ip, ip_list))
      \<in> measure (\<lambda>(s, e, acc). nat (uint e + 1 - uint s))"
    by simp
qed

declare ip_pool_loop.simps [simp del]

definition ip_pool_to_list :: "ipv4 \<Rightarrow> ipv4 \<Rightarrow> py_error + ipv4 list" where
  "ip_pool_to_list start_ip end_ip = ip_pool_loop start_ip end_ip []"

lemma ipv4_add_ok:
  "0 \<le> uint a + n \<Longrightarrow> uint a + n < 2 ^ 32 \<Longrightarrow>
   ipv4_add a n = Inr (word_of_int (uint a + n))"
  by (simp add: ipv4_add_def)

lemma ipv4_add_overflow:
  "2 ^ 32 - 1 < uint a + n \<Longrightarrow> ipv4_add a n = Inl AddressValueError"
  by (simp add: ipv4_add_def)

lemma upt_map_shift:
  "0 < n \<Longrightarrow> map f [0..<n] = f 0 # map (\<lambda>i. f (Suc i)) [0..<n - 1]"
  by (cases n) (simp_all add: upt_conv_Cons map_Suc_upt [symmetric] del: upt_Suc)

text \<open>Below the last address the loop appends every address from \<open>start_ip\<close> to
  \<open>end_ip\<close>, both included.\<close>

lemma ip_pool_loop_below_max:
  "uint e < 2 ^ 32 - 1 \<Longrightarrow>
   ip_pool_loop s e acc =
     Inr (acc @ map (\<lambda>i. word_of_int (uint s + int i)) [0..<nat (uint e + 1 - uint s)])"
proof (induction s e acc rule: ip_pool_loop.induct)
  case (1 s e acc)
  show ?case
  proof (cases "s \<le> e")
    case False
    then have "uint e < uint s" by (simp add: word_le_def)
    then show ?thesis using False by (subst ip_pool_loop.simps) simp
  next
    case True
    then have le: "uint s \<le> uint e" by (simp add: word_le_def)
    have bound: "ipv4_add e 1 = Inr (word_of_int (uint e + 1))"
      using "1.prems" by (intro ipv4_add_ok) simp_all
    have ub: "uint (word_of_int (uint e + 1) :: ipv4) = uint e + 1"
      using "1.prems" by (intro uint_word_of_int_32) simp_all
    have ne: "s \<noteq> word_of_int (uint e + 1)"
      using ub le by auto
    have nxt: "ipv4_add s 1 = Inr (word_of_int (uint s + 1))"
      using "1.prems" le by (intro ipv4_add_ok) simp_all
    have us: "uint (word_of_int (uint s + 1) :: ipv4) = uint s + 1"
      using "1.prems" le by (intro uint_word_of_int_32) simp_all
    have IH: "ip_pool_loop (word_of_int (uint s + 1)) e (acc @ [s]) =
        Inr ((acc @ [s]) @
          map (\<lambda>i. word_of_int (uint (word_of_int (uint s + 1) :: ipv4) + int i))
            [0..<nat (uint e + 1 - uint (word_of_int (uint s + 1) :: ipv4))])"
      using "1.IH" [OF True bound ne nxt "1.prems"] .
    have pos: "0 < nat (uint e + 1 - uint s)" using le by simp
    have n1: "nat (uint e + 1 - (uint s + 1)) = nat (uint e + 1 - uint s) - 1" by simp
    have "ip_pool_loop s e acc = ip_pool_loop (word_of_int (uint s + 1)) e (acc @ [s])"
      using True bound ne nxt by (subst ip_pool_loop.simps) simp
    also have "\<dots> = Inr (acc @ s # map (\<lambda>i. word_of_int (uint s + 1 + int i))
          [0..<nat (uint e + 1 - uint s) - 1])"
      unfolding IH us n1 by simp
    also have "s # map (\<lambda>i. word_of_int (uint s + 1 + int i)) [0..<nat (uint e + 1 - uint s) - 1]
        = map (\<lambda>i. word_of_int (uint s + int i)) [0..<nat (uint e + 1 - uint s)]"
      unfolding upt_map_shift [OF pos, of "\<lambda>i. word_of_int (uint s + int i)"]
      by (simp add: add.assoc add.commute)
    finally show ?thesis .
  qed
qed

lemma ip_pool_to_list_inclusive:
  assumes "uint a + int k < 2 ^ 32 - 1"
  shows "ip_pool_to_list a (a + of_nat k) = Inr (map (\<lambda>i. a + of_nat i) [0..<Suc k])"
proof -
  have "0 \<le> uint a + int k" by simp
  then have u: "uint (word_of_int (uint a + int k) :: ipv4) = uint a + int k"
    using assms by (intro uint_word_of_int_32) simp_all
  have e: "(a + of_nat k :: ipv4) = word_of_int (uint a + int k)" by simp
  have n: "nat (uint (a + of_nat k) + 1 - uint a) = Suc k"
    unfolding e u by simp
  have "uint (a + of_nat k) < 2 ^ 32 - 1"
    unfolding e u using assms .
  then show ?thesis
    unfolding ip_pool_to_list_def by (simp add: ip_pool_loop_below_max n del: upt_Suc)
qed

lemma ip_pool_to_list_single:
  "uint a < 2 ^ 32 - 1 \<Longrightarrow> ip_pool_to_list a a = Inr [a]"
  using ip_pool_to_list_inclusive [of a 0] by simp

lemma ip_pool_to_list_reversed:
  "end_ip < start_ip \<Longrightarrow> ip_pool_to_list start_ip end_ip = Inr []"
proof -
  assume "end_ip < start_ip"
  then have "\<not> start_ip \<le> end_ip" by (simp add: not_le)
  then show ?thesis
    unfolding ip_pool_to_list_def by (subst ip_pool_loop.simps) simp
qed

text \<open>When \<open>end_ip\<close> is the last address, 255.255.255.255, the loop test itself raises:
  \<open>end_ip + 1\<close> is not an address.\<close>

lemma ip_pool_to_list_last_raises:
  "start_ip \<le> end_ip \<Longrightarrow> uint end_ip = 2 ^ 32 - 1 \<Longrightarrow>
   ip_pool_to_list start_ip end_ip = Inl AddressValueError"
  unfolding ip_pool_to_list_def by (subst ip_pool_loop.simps) (simp add: ipv4_add_def)

text \<open>
  C3. The claim: for every address \<open>a\<close> and \<open>k \<ge> 0\<close> with \<open>a + k\<close> a valid address,
  \<open>ip_pool_to_list(a, a + k)\<close> returns the \<open>k + 1\<close> addresses from \<open>a\<close> to \<open>a + k\<close>, and
  \<open>ip_pool_to_list(a, a)\<close> returns \<open>[a]\<close>. At \<open>a = 255.255.255.255\<close> (the integer
  \<open>0xFFFFFFFF\<close>, a valid address) the call raises AddressValueError instead of
  returning \<open>[a]\<close>, and so does the pool \<open>255.255.255.254 .. 255.255.255.255\<close>.
\<close>

theorem ip_pool_to_list_broadcast_raises:
  "ip_pool_to_list 0xFFFFFFFF 0xFFFFFFFF = Inl AddressValueError
   \<and> ip_pool_to_list 0xFFFFFFFE 0xFFFFFFFF = Inl AddressValueError"
  by (simp add: ip_pool_to_list_def ip_pool_loop.simps ipv4_add_def)

section \<open>Common utilities: \<open>retry\<close>\<close>

text \<open>
  \<^verbatim>\<open>
  for _ in range(max_retry - 1):
      output = func_name(*args)
      if output and output != "False":
          return output
      time.sleep(5)
  return func_name(*args)
  \<close>
  The callable may have effects, so it is a function from a state to its return value
  and the next state; the arguments are the same at every call and are part of it. The
  result records the returned value, the state after the last call, the number of calls
  made and the seconds slept. \<open>retry_success\<close> is the test of the \<open>if\<close>.
\<close>

record 's retry_result =
  returned :: pyval
  final_state :: 's
  calls :: nat
  slept :: nat

definition retry_success :: "pyval \<Rightarrow> bool" where
  "retry_success output = (truthy output \<and> output \<noteq> PStr ''False'')"

fun retry_loop :: "('s \<Rightarrow> pyval \<times> 's) \<Rightarrow> nat \<Rightarrow> 's \<Rightarrow> nat \<Rightarrow> nat \<Rightarrow> 's retry_result" where
  "retry_loop func_name 0 s n_calls n_slept =
     (case func_name s of (output, s') \<Rightarrow>
        \<lparr>returned = output, final_state = s', calls = Suc n_calls, slept = n_slept\<rparr>)"
| "retry_loop func_name (Suc remaining) s n_calls n_slept =
     (case func_name s of (output, s') \<Rightarrow>
        if retry_success output
        then \<lparr>returned = output, final_state = s', calls = Suc n_calls, slept = n_slept\<rparr>
        else retry_loop func_name remaining s' (Suc n_calls) (n_slept + 5))"

definition retry :: "('s \<Rightarrow> pyval \<times> 's) \<Rightarrow> int \<Rightarrow> 's \<Rightarrow> 's retry_result" where
  "retry func_name max_retry s = retry_loop func_name (nat (max_retry - 1)) s 0 0"

fun state_after :: "('s \<Rightarrow> pyval \<times> 's) \<Rightarrow> nat \<Rightarrow> 's \<Rightarrow> 's" where
  "state_after func_name 0 s = s"
| "state_after func_name (Suc k) s = state_after func_name k (snd (func_name s))"

definition output_of_call :: "('s \<Rightarrow> pyval \<times> 's) \<Rightarrow> nat \<Rightarrow> 's \<Rightarrow> pyval" where
  "output_of_call func_name k s = fst (func_name (state_after func_name k s))"

lemma retry_loop_trace:
  "\<exists>j\<le>n. calls (retry_loop f n s c sl) = c + j + 1
     \<and> returned (retry_loop f n s c sl) = output_of_call f j s
     \<and> final_state (retry_loop f n s c sl) = state_after f (Suc j) s
     \<and> (\<forall>k<j. \<not> retry_success (output_of_call f k s))
     \<and> (j < n \<longrightarrow> retry_success (output_of_call f j s))
     \<and> slept (retry_loop f n s c sl) = sl + 5 * j"
proof (induction n arbitrary: s c sl)
  case 0
  show ?case by (simp add: output_of_call_def split: prod.splits)
next
  case (Suc n)
  obtain out s' where fs: "f s = (out, s')" by (cases "f s")
  show ?case
  proof (cases "retry_success out")
    case True
    then show ?thesis
      using fs by (intro exI [of _ 0]) (simp add: output_of_call_def)
  next
    case False
    from Suc.IH [of s' "Suc c" "sl + 5"] obtain j where j: "j \<le> n"
      and c: "calls (retry_loop f n s' (Suc c) (sl + 5)) = Suc c + j + 1"
      and r: "returned (retry_loop f n s' (Suc c) (sl + 5)) = output_of_call f j s'"
      and st: "final_state (retry_loop f n s' (Suc c) (sl + 5)) = state_after f (Suc j) s'"
      and fl: "\<forall>k<j. \<not> retry_success (output_of_call f k s')"
      and ok: "j < n \<longrightarrow> retry_success (output_of_call f j s')"
      and sp: "slept (retry_loop f n s' (Suc c) (sl + 5)) = sl + 5 + 5 * j"
      by blast
    have shift: "\<And>k. output_of_call f (Suc k) s = output_of_call f k s'"
      using fs by (simp add: output_of_call_def)
    have first: "output_of_call f 0 s = out"
      using fs by (simp add: output_of_call_def)
    have fails: "\<forall>k<Suc j. \<not> retry_success (output_of_call f k s)"
    proof (intro allI impI)
      fix k assume "k < Suc j"
      then show "\<not> retry_success (output_of_call f k s)"
        using False first shift fl by (cases k) simp_all
    qed
    have unfold: "retry_loop f (Suc n) s c sl = retry_loop f n s' (Suc c) (sl + 5)"
      using fs False by simp
    show ?thesis
      unfolding unfold
      using j c r st fails ok sp shift fs
      by (intro exI [of _ "Suc j"]) simp
  qed
qed

lemma retry_trace:
  "\<exists>j\<le>nat (max_retry - 1). calls (retry f max_retry s) = j + 1
     \<and> returned (retry f max_retry s) = output_of_call f j s
     \<and> final_state (retry f max_retry s) = state_after f (Suc j) s
     \<and> (\<forall>k<j. \<not> retry_success (output_of_call f k s))
     \<and> (j < nat (max_retry - 1) \<longrightarrow> retry_success (output_of_call f j s))
     \<and> slept (retry f max_retry s) = 5 * j"
  unfolding retry_def using retry_loop_trace [of "nat (max_retry - 1)" f s 0 0] by simp

text \<open>
  C2. For \<open>max_retry \<ge> 1\<close>, \<open>retry\<close> calls the function at least once and at most
  \<open>max_retry\<close> times. An attempt fails exactly when its value is falsy or equal to the
  string \<open>False\<close>. The value returned is that of the last call made; every call before
  it failed; if fewer than \<open>max_retry\<close> calls were made the returned value is not a
  failure (the first success ends the calls), and otherwise the value of call number
  \<open>max_retry\<close> is returned whatever it is.
\<close>

theorem retry_attempts:
  assumes "1 \<le> max_retry"
  shows "1 \<le> calls (retry f max_retry s)
     \<and> int (calls (retry f max_retry s)) \<le> max_retry
     \<and> (\<forall>v. (\<not> retry_success v) = (\<not> truthy v \<or> v = PStr ''False''))
     \<and> returned (retry f max_retry s) = output_of_call f (calls (retry f max_retry s) - 1) s
     \<and> final_state (retry f max_retry s) = state_after f (calls (retry f max_retry s)) s
     \<and> (\<forall>k<calls (retry f max_retry s) - 1. \<not> retry_success (output_of_call f k s))
     \<and> (int (calls (retry f max_retry s)) < max_retry
          \<longrightarrow> retry_success (returned (retry f max_retry s)))"
proof -
  obtain j where j: "j \<le> nat (max_retry - 1)"
    and c: "calls (retry f max_retry s) = j + 1"
    and r: "returned (retry f max_retry s) = output_of_call f j s"
    and st: "final_state (retry f max_retry s) = state_after f (Suc j) s"
    and fl: "\<forall>k<j. \<not> retry_success (output_of_call f k s)"
    and ok: "j < nat (max_retry - 1) \<longrightarrow> retry_success (output_of_call f j s)"
    using retry_trace [of max_retry f s] by blast
  have "int (j + 1) \<le> max_retry"
    using j assms by linarith
  moreover have "int (j + 1) < max_retry \<longrightarrow> j < nat (max_retry - 1)"
    by linarith
  ultimately show ?thesis
    using c r st fl ok by (simp add: retry_success_def)
qed

text \<open>The specification's example: a function that returns \<open>False\<close> on its first two calls
  and a non-empty string on the third, counting its calls in the state.\<close>

definition fails_twice :: "nat \<Rightarrow> pyval \<times> nat" where
  "fails_twice n = (if n < 2 then PBool False else PStr ''ready'', Suc n)"

theorem retry_attempts_witness:
  "(1::int) \<le> 3
   \<and> calls (retry fails_twice 3 0) = 3
   \<and> returned (retry fails_twice 3 0) = PStr ''ready''
   \<and> final_state (retry fails_twice 3 0) = 3"
  using retry_attempts [of 3 fails_twice 0]
  by (simp add: retry_def fails_twice_def retry_success_def numeral_2_eq_2)

section \<open>Common utilities: \<open>get_value_from_dict\<close>\<close>

text \<open>
  \<^verbatim>\<open>
  for name, value in dictionary.items():
      if name == key:
          return value
      if isinstance(value, dict):
          return_value = get_value_from_dict(key, value)
          if return_value is not None:
              return return_value
  return None
  \<close>
\<close>

fun get_value_from_dict :: "string \<Rightarrow> (string \<times> pyval) list \<Rightarrow> pyval" where
  "get_value_from_dict key [] = PNone"
| "get_value_from_dict key ((name, val) # rest) =
     (if name = key then val
      else case val of
        PDict d \<Rightarrow>
          (let return_value = get_value_from_dict key d
           in if return_value \<noteq> PNone then return_value
              else get_value_from_dict key rest)
      | _ \<Rightarrow> get_value_from_dict key rest)"

text \<open>
  The traversal the specification describes: depth first, every entry before the
  entries of its value when that value is a dictionary, never into a list.
  \<open>first_match\<close> is the first entry of that order whose key is the key looked for.
\<close>

fun dfs_entries :: "(string \<times> pyval) list \<Rightarrow> (string \<times> pyval) list" where
  "dfs_entries [] = []"
| "dfs_entries ((name, val) # rest) =
     (name, val) # (case val of PDict d \<Rightarrow> dfs_entries d | _ \<Rightarrow> []) @ dfs_entries rest"

definition first_match :: "string \<Rightarrow> (string \<times> pyval) list \<Rightarrow> (string \<times> pyval) option" where
  "first_match key d = find (\<lambda>entry. fst entry = key) (dfs_entries d)"

lemma find_app:
  "find P (xs @ ys) = (case find P xs of None \<Rightarrow> find P ys | Some x \<Rightarrow> Some x)"
  by (induction xs) simp_all

lemma first_match_Cons:
  "first_match key ((name, val) # rest) =
     (if name = key then Some (name, val)
      else case val of
        PDict d \<Rightarrow> (case first_match key d of None \<Rightarrow> first_match key rest | Some e \<Rightarrow> Some e)
      | _ \<Rightarrow> first_match key rest)"
  unfolding first_match_def by (cases val) (simp_all add: find_app)

lemma first_match_Nil: "first_match key [] = None"
  by (simp add: first_match_def)

lemma gv_no_match: "first_match key d = None \<Longrightarrow> get_value_from_dict key d = PNone"
proof (induction key d rule: get_value_from_dict.induct)
  case (1 key)
  show ?case by simp
next
  case (2 key name val rest)
  from "2.prems" have ne: "name \<noteq> key"
    by (simp add: first_match_Cons split: if_splits)
  show ?case
  proof (cases val)
    case (PDict d)
    from "2.prems" ne PDict have sub: "first_match key d = None" and r: "first_match key rest = None"
      by (simp_all add: first_match_Cons split: option.splits)
    have "get_value_from_dict key d = PNone"
      using "2.IH"(6) [OF ne PDict sub] .
    moreover have "get_value_from_dict key rest = PNone"
      using "2.IH"(7) [OF ne PDict refl _ r] calculation by simp
    ultimately show ?thesis using ne PDict by simp
  qed (use "2.prems" "2.IH" ne in \<open>simp_all add: first_match_Cons\<close>)
qed

lemma gv_first_match:
  "first_match key d = Some (n, v) \<Longrightarrow> v \<noteq> PNone \<Longrightarrow> get_value_from_dict key d = v"
proof (induction key d rule: get_value_from_dict.induct)
  case (1 key)
  then show ?case by (simp add: first_match_Nil)
next
  case (2 key name val rest)
  show ?case
  proof (cases "name = key")
    case True
    then show ?thesis using "2.prems" by (simp add: first_match_Cons)
  next
    case ne: False
    show ?thesis
    proof (cases val)
      case (PDict d)
      show ?thesis
      proof (cases "first_match key d")
        case None
        then have r: "first_match key rest = Some (n, v)"
          using "2.prems" ne PDict by (simp add: first_match_Cons)
        have sub: "get_value_from_dict key d = PNone"
          using None by (rule gv_no_match)
        have "get_value_from_dict key rest = v"
          using "2.IH"(7) [OF ne PDict refl _ r "2.prems"(2)] sub by simp
        then show ?thesis using ne PDict sub by simp
      next
        case (Some e)
        then have "first_match key d = Some (n, v)"
          using "2.prems" ne PDict by (simp add: first_match_Cons)
        then have "get_value_from_dict key d = v"
          using "2.IH"(6) [OF ne PDict _ "2.prems"(2)] by simp
        then show ?thesis using ne PDict "2.prems"(2) by simp
      qed
    qed (use "2.prems" "2.IH" ne in \<open>simp_all add: first_match_Cons\<close>)
  qed
qed

definition first_match_value :: "string \<Rightarrow> (string \<times> pyval) list \<Rightarrow> pyval" where
  "first_match_value key d = (case first_match key d of None \<Rightarrow> PNone | Some entry \<Rightarrow> snd entry)"

text \<open>An entry of the dictionary itself that comes before every nested entry with the
  key is returned whatever its value.\<close>

lemma gv_top_level:
  "first_match key pre = None \<Longrightarrow> get_value_from_dict key (pre @ (key, v) # post) = v"
proof (induction pre)
  case Nil
  show ?case by simp
next
  case (Cons entry pre)
  obtain name val where entry: "entry = (name, val)" by (cases entry)
  from Cons.prems entry have ne: "name \<noteq> key"
    by (simp add: first_match_Cons split: if_splits)
  show ?case
  proof (cases val)
    case (PDict sub)
    from Cons.prems entry ne PDict
    have s: "first_match key sub = None" and r: "first_match key pre = None"
      by (simp_all add: first_match_Cons split: option.splits)
    have "get_value_from_dict key sub = PNone"
      using s by (rule gv_no_match)
    then show ?thesis
      using entry ne PDict Cons.IH [OF r] by simp
  qed (use Cons entry ne in \<open>simp_all add: first_match_Cons\<close>)
qed

text \<open>
  C6, the claim as stated: the result is the value of the first entry in traversal order
  whose key is \<open>key\<close>, None when there is none. It fails where that first entry is nested
  and holds None: in \<open>{"a": {"x": None}, "x": 5}\<close> the first entry with key \<open>x\<close> is the
  nested one, with value None, and the code returns 5.
\<close>

theorem get_value_from_dict_nested_none:
  "first_match ''x'' [(''a'', PDict [(''x'', PNone)]), (''x'', PInt 5)] = Some (''x'', PNone)
   \<and> first_match_value ''x'' [(''a'', PDict [(''x'', PNone)]), (''x'', PInt 5)] = PNone
   \<and> get_value_from_dict ''x'' [(''a'', PDict [(''x'', PNone)]), (''x'', PInt 5)] = PInt 5"
  by (simp add: first_match_value_def first_match_def)

text \<open>
  The order in which the code looks at entries: depth first, into dictionary values
  only, in iteration order, and in every dictionary (the one given or a nested one) no
  further than its first entry with the key. A hit is an entry with the key whose value
  is not None; \<open>searched_value\<close> is the value of the first hit of that order, None when
  there is none.
\<close>

fun search_order :: "string \<Rightarrow> (string \<times> pyval) list \<Rightarrow> (string \<times> pyval) list" where
  "search_order key [] = []"
| "search_order key ((name, val) # rest) =
     (if name = key then [(name, val)]
      else (name, val) # (case val of PDict d \<Rightarrow> search_order key d | _ \<Rightarrow> [])
             @ search_order key rest)"

definition is_hit :: "string \<Rightarrow> string \<times> pyval \<Rightarrow> bool" where
  "is_hit key entry = (fst entry = key \<and> snd entry \<noteq> PNone)"

definition searched_value :: "string \<Rightarrow> (string \<times> pyval) list \<Rightarrow> pyval" where
  "searched_value key d =
     (case find (is_hit key) (search_order key d) of None \<Rightarrow> PNone | Some entry \<Rightarrow> snd entry)"

lemma searched_value_Nil: "searched_value key [] = PNone"
  by (simp add: searched_value_def)

lemma searched_value_Cons:
  "searched_value key ((name, val) # rest) =
     (if name = key then val
      else case val of
        PDict d \<Rightarrow>
          (if searched_value key d \<noteq> PNone then searched_value key d
           else searched_value key rest)
      | _ \<Rightarrow> searched_value key rest)"
proof (cases "name = key")
  case True
  then show ?thesis by (cases "val = PNone") (simp_all add: searched_value_def is_hit_def)
next
  case ne: False
  show ?thesis
  proof (cases val)
    case (PDict d)
    show ?thesis
    proof (cases "find (is_hit key) (search_order key d)")
      case None
      then show ?thesis
        using ne PDict by (simp add: searched_value_def is_hit_def find_app)
    next
      case (Some e)
      then have "is_hit key e" by (auto simp: find_Some_iff)
      then have "snd e \<noteq> PNone" by (simp add: is_hit_def)
      then show ?thesis
        using ne PDict Some by (simp add: searched_value_def is_hit_def find_app)
    qed
  qed (use ne in \<open>simp_all add: searched_value_def is_hit_def\<close>)
qed

lemma gv_searched: "get_value_from_dict key d = searched_value key d"
proof (induction key d rule: get_value_from_dict.induct)
  case (1 key)
  show ?case by (simp add: searched_value_Nil)
next
  case (2 key name val rest)
  show ?case
  proof (cases "name = key")
    case True
    then show ?thesis by (simp add: searched_value_Cons)
  next
    case ne: False
    show ?thesis
    proof (cases val)
      case (PDict d)
      have sub: "get_value_from_dict key d = searched_value key d"
        using "2.IH"(6) [OF ne PDict] .
      show ?thesis
      proof (cases "searched_value key d = PNone")
        case True
        then have "get_value_from_dict key rest = searched_value key rest"
          using "2.IH"(7) [OF ne PDict refl] sub by simp
        then show ?thesis using ne PDict sub True by (simp add: searched_value_Cons)
      next
        case False
        then show ?thesis using ne PDict sub by (simp add: searched_value_Cons)
      qed
    qed (use "2.IH" ne in \<open>simp_all add: searched_value_Cons\<close>)
  qed
qed

lemma search_order_first:
  "find (\<lambda>entry. fst entry = key) (search_order key d) = first_match key d"
proof (induction key d rule: search_order.induct)
  case (1 key)
  show ?case by (simp add: first_match_Nil)
next
  case (2 key name val rest)
  show ?case
  proof (cases "name = key")
    case True
    then show ?thesis by (simp add: first_match_Cons)
  next
    case ne: False
    have r: "find (\<lambda>entry. fst entry = key) (search_order key rest) = first_match key rest"
      using "2.IH"(2) [OF ne] .
    show ?thesis
    proof (cases val)
      case (PDict d)
      have "find (\<lambda>entry. fst entry = key) (search_order key d) = first_match key d"
        using "2.IH"(1) [OF ne PDict] .
      then show ?thesis using ne PDict r
        by (simp add: first_match_Cons find_app cong: option.case_cong)
    qed (use ne r in \<open>simp_all add: first_match_Cons\<close>)
  qed
qed

text \<open>
  C6, amended. The search is depth first, into dictionary values only (never into
  lists), in iteration order, and the search of a dictionary, the given one or a nested
  one, stops at that dictionary's first entry with the key. The result is the value of
  the first entry looked at that has the key and a value other than None, and None when
  there is no such entry. The first entry with the key is the same as in the full
  depth-first order: when its value is not None it is the result, and when no entry at
  any depth has the key the result is None.
\<close>

theorem get_value_from_dict_search:
  "get_value_from_dict key d = searched_value key d
   \<and> find (\<lambda>entry. fst entry = key) (search_order key d) = first_match key d
   \<and> (first_match_value key d \<noteq> PNone
        \<longrightarrow> get_value_from_dict key d = first_match_value key d)
   \<and> (first_match key d = None \<longrightarrow> get_value_from_dict key d = PNone)"
proof (intro conjI impI)
  show "get_value_from_dict key d = searched_value key d" by (rule gv_searched)
  show "find (\<lambda>entry. fst entry = key) (search_order key d) = first_match key d"
    by (rule search_order_first)
next
  assume nn: "first_match_value key d \<noteq> PNone"
  then obtain n v where m: "first_match key d = Some (n, v)"
    by (cases "first_match key d") (auto simp: first_match_value_def)
  then have v: "first_match_value key d = v"
    by (simp add: first_match_value_def)
  show "get_value_from_dict key d = first_match_value key d"
    unfolding v using m nn [unfolded v] by (rule gv_first_match)
next
  assume "first_match key d = None"
  then show "get_value_from_dict key d = PNone" by (rule gv_no_match)
qed

text \<open>The specification's two examples, the dictionary \<open>{"a": {"x": None}, "x": 5}\<close>, and
  \<open>{"a": {"x": None, "b": {"x": 7}}}\<close>, where the nested None ends the search of \<open>a\<close>.\<close>

theorem get_value_from_dict_search_witness:
  "first_match_value ''x'' [(''a'', PDict [(''b'', PDict [(''x'', PInt 5)])])] \<noteq> PNone
   \<and> get_value_from_dict ''x'' [(''a'', PDict [(''b'', PDict [(''x'', PInt 5)])])] = PInt 5
   \<and> first_match ''missing'' [(''a'', PInt 1)] = None
   \<and> get_value_from_dict ''missing'' [(''a'', PInt 1)] = PNone
   \<and> searched_value ''x'' [(''a'', PDict [(''x'', PNone)]), (''x'', PInt 5)] = PInt 5
   \<and> get_value_from_dict ''x'' [(''a'', PDict [(''x'', PNone)]), (''x'', PInt 5)] = PInt 5
   \<and> searched_value ''x'' [(''a'', PDict [(''x'', PNone), (''b'', PDict [(''x'', PInt 7)])])] = PNone
   \<and> get_value_from_dict ''x'' [(''a'', PDict [(''x'', PNone), (''b'', PDict [(''x'', PInt 7)])])]
       = PNone"
proof -
  have a: "first_match_value ''x'' [(''a'', PDict [(''b'', PDict [(''x'', PInt 5)])])] \<noteq> PNone"
    by (simp add: first_match_value_def first_match_def)
  have b: "first_match ''missing'' [(''a'', PInt 1)] = None"
    by (simp add: first_match_def)
  have c: "searched_value ''x'' [(''a'', PDict [(''x'', PNone)]), (''x'', PInt 5)] = PInt 5"
    by (simp add: searched_value_def is_hit_def)
  have d: "searched_value ''x'' [(''a'', PDict [(''x'', PNone), (''b'', PDict [(''x'', PInt 7)])])]
      = PNone"
    by (simp add: searched_value_def is_hit_def)
  have a': "get_value_from_dict ''x'' [(''a'', PDict [(''b'', PDict [(''x'', PInt 5)])])]
      = first_match_value ''x'' [(''a'', PDict [(''b'', PDict [(''x'', PInt 5)])])]"
    using get_value_from_dict_search [of "''x''" "[(''a'', PDict [(''b'', PDict [(''x'', PInt 5)])])]"] a
    by blast
  have a'': "first_match_value ''x'' [(''a'', PDict [(''b'', PDict [(''x'', PInt 5)])])] = PInt 5"
    by (simp add: first_match_value_def first_match_def)
  have b': "get_value_from_dict ''missing'' [(''a'', PInt 1)] = PNone"
    using get_value_from_dict_search [of "''missing''" "[(''a'', PInt 1)]"] b by blast
  have c': "get_value_from_dict ''x'' [(''a'', PDict [(''x'', PNone)]), (''x'', PInt 5)]
      = searched_value ''x'' [(''a'', PDict [(''x'', PNone)]), (''x'', PInt 5)]"
    using get_value_from_dict_search [of "''x''" "[(''a'', PDict [(''x'', PNone)]), (''x'', PInt 5)]"]
    by blast
  have d': "get_value_from_dict ''x'' [(''a'', PDict [(''x'', PNone), (''b'', PDict [(''x'', PInt 7)])])]
      = searched_value ''x'' [(''a'', PDict [(''x'', PNone), (''b'', PDict [(''x'', PInt 7)])])]"
    using get_value_from_dict_search
      [of "''x''" "[(''a'', PDict [(''x'', PNone), (''b'', PDict [(''x'', PInt 7)])])]"]
    by blast
  show ?thesis
    unfolding a' c' d' using a a'' b b' c d by blast
qed

section \<open>Networking: the iptables listings\<close>

text \<open>
  \<^verbatim>\<open>
  def get_iptables_list(self, opts="", extra_opts=""):
      return IptablesParser().ip6tables(
          self._console.execute_command(f"iptables {opts} {extra_opts}"))

  def get_ip6tables_list(self, opts="", extra_opts=""):
      return IptablesParser().ip6tables(
          self._console.execute_command(f"ip6tables {opts} {extra_opts}"))
  \<close>
  The console and the parser class are outside these sources. The console is a state
  \<open>'c\<close> with \<open>execute_command\<close> returning the output and the next state. The class
  \<open>IptablesParser\<close> is given by its entry points: \<open>iptables_parser m\<close> is what the method
  named \<open>m\<close> of a fresh instance computes from the output text, a result \<open>'r\<close> (the
  mapping of chains to rule lists, or whatever else that method answers). Different
  names may stand for different functions; each listing names the entry point it calls.
\<close>

definition get_iptables_list ::
  "(string \<Rightarrow> string \<Rightarrow> 'r) \<Rightarrow> (string \<Rightarrow> 'c \<Rightarrow> string \<times> 'c) \<Rightarrow> string \<Rightarrow> string \<Rightarrow> 'c
    \<Rightarrow> 'r \<times> 'c" where
  "get_iptables_list iptables_parser execute_command opts extra_opts console =
     (case execute_command (''iptables '' @ opts @ '' '' @ extra_opts) console of
        (output, console') \<Rightarrow> (iptables_parser ''ip6tables'' output, console'))"

definition get_ip6tables_list ::
  "(string \<Rightarrow> string \<Rightarrow> 'r) \<Rightarrow> (string \<Rightarrow> 'c \<Rightarrow> string \<times> 'c) \<Rightarrow> string \<Rightarrow> string \<Rightarrow> 'c
    \<Rightarrow> 'r \<times> 'c" where
  "get_ip6tables_list iptables_parser execute_command opts extra_opts console =
     (case execute_command (''ip6tables '' @ opts @ '' '' @ extra_opts) console of
        (output, console') \<Rightarrow> (iptables_parser ''ip6tables'' output, console'))"

text \<open>
  C8. For every parser class, whatever its other entry points compute, both listings
  return what the entry point named \<open>ip6tables\<close> computes from the output of their own
  command (\<open>iptables ...\<close> for the IPv4 listing, \<open>ip6tables ...\<close> for the IPv6 one), so
  whenever the two commands print the same text the two listings are equal.
\<close>

theorem iptables_lists_share_parser:
  "fst (get_iptables_list iptables_parser execute_command opts extra_opts console)
     = iptables_parser ''ip6tables''
         (fst (execute_command (''iptables '' @ opts @ '' '' @ extra_opts) console))
   \<and> fst (get_ip6tables_list iptables_parser execute_command opts' extra_opts' console')
     = iptables_parser ''ip6tables''
         (fst (execute_command (''ip6tables '' @ opts' @ '' '' @ extra_opts') console'))
   \<and> (fst (execute_command (''iptables '' @ opts @ '' '' @ extra_opts) console)
        = fst (execute_command (''ip6tables '' @ opts' @ '' '' @ extra_opts') console')
      \<longrightarrow> fst (get_iptables_list iptables_parser execute_command opts extra_opts console)
        = fst (get_ip6tables_list iptables_parser execute_command opts' extra_opts' console'))"
  by (simp add: get_iptables_list_def get_ip6tables_list_def split: prod.splits)

text \<open>
  A console that prints the same empty table for every command and logs the commands,
  and a parser class whose entry points differ: each tags the one chain it reports with
  its own name. The IPv4 listing carries the tag of \<open>ip6tables\<close>, not the one an entry
  point named \<open>iptables\<close> would give on the same output.
\<close>

definition quiet_console :: "string \<Rightarrow> string list \<Rightarrow> string \<times> string list" where
  "quiet_console command log = (''Chain INPUT (policy ACCEPT)'', log @ [command])"

definition tagging_parser :: "string \<Rightarrow> string \<Rightarrow> (string \<times> string list) list" where
  "tagging_parser method output = [(method, [output])]"

theorem iptables_lists_share_parser_witness:
  "fst (quiet_console (''iptables '' @ ''-S'' @ '' '' @ ''-t nat'') [])
     = fst (quiet_console (''ip6tables '' @ ''-S'' @ '' '' @ ''-t nat'') [''iptables -S -t nat''])
   \<and> fst (get_iptables_list tagging_parser quiet_console ''-S'' ''-t nat'' [])
     = fst (get_ip6tables_list tagging_parser quiet_console ''-S'' ''-t nat''
              [''iptables -S -t nat''])
   \<and> fst (get_iptables_list tagging_parser quiet_console ''-S'' ''-t nat'' [])
     = [(''ip6tables'', [''Chain INPUT (policy ACCEPT)''])]
   \<and> fst (get_iptables_list tagging_parser quiet_console ''-S'' ''-t nat'' [])
     \<noteq> tagging_parser ''iptables'' ''Chain INPUT (policy ACCEPT)''
   \<and> snd (get_iptables_list tagging_parser quiet_console ''-S'' ''-t nat'' [])
     = [''iptables -S -t nat'']"
proof -
  have same: "fst (quiet_console (''iptables '' @ ''-S'' @ '' '' @ ''-t nat'') [])
     = fst (quiet_console (''ip6tables '' @ ''-S'' @ '' '' @ ''-t nat'') [''iptables -S -t nat''])"
    by (simp add: quiet_console_def)
  have eq: "fst (get_iptables_list tagging_parser quiet_console ''-S'' ''-t nat'' [])
     = fst (get_ip6tables_list tagging_parser quiet_console ''-S'' ''-t nat''
              [''iptables -S -t nat''])"
    using iptables_lists_share_parser [of tagging_parser quiet_console "''-S''" "''-t nat''" "[]"
      "''-S''" "''-t nat''" "[''iptables -S -t nat'']"] same by blast
  have out: "fst (quiet_console (''iptables '' @ ''-S'' @ '' '' @ ''-t nat'') [])
      = ''Chain INPUT (policy ACCEPT)''"
    by (simp add: quiet_console_def)
  have "fst (get_iptables_list tagging_parser quiet_console ''-S'' ''-t nat'' [])
     = tagging_parser ''ip6tables''
         (fst (quiet_console (''iptables '' @ ''-S'' @ '' '' @ ''-t nat'') []))"
    using iptables_lists_share_parser [of tagging_parser quiet_console "''-S''" "''-t nat''" "[]"]
    by blast
  then have val: "fst (get_iptables_list tagging_parser quiet_console ''-S'' ''-t nat'' [])
     = [(''ip6tables'', [''Chain INPUT (policy ACCEPT)''])]"
    unfolding out by (simp add: tagging_parser_def)
  have other: "tagging_parser ''iptables'' ''Chain INPUT (policy ACCEPT)''
      \<noteq> [(''ip6tables'', [''Chain INPUT (policy ACCEPT)''])]"
    by (simp add: tagging_parser_def)
  have log: "snd (get_iptables_list tagging_parser quiet_console ''-S'' ''-t nat'' [])
     = [''iptables -S -t nat'']"
    by (simp add: get_iptables_list_def quiet_console_def)
  show ?thesis using same eq val other log by (metis (no_types))
qed

section \<open>The WAN device: \<open>_setup_wan\<close>\<close>

text \<open>
  The fields \<open>__init__\<close> sets before it calls the base class, and the log of the commands
  sent to the console. The console, the configuration dictionary and \<open>iface_dut\<close> come
  from the base class, outside these sources: a command sent is recorded, the value of
  the configuration's \<open>options\<close> key (\<open>None\<close> when the key is absent) and the interface
  name are arguments.
\<close>

record linux_wan =
  static_route :: string
  wan_dhcp :: bool
  wan_no_eth0 :: bool
  wan_dhcp_server :: bool
  wan_dhcpv6 :: bool
  console_log :: "string list"

definition linux_wan_init :: linux_wan where
  "linux_wan_init =
     \<lparr>static_route = [], wan_dhcp = False, wan_no_eth0 = False, wan_dhcp_server = False,
      wan_dhcpv6 = False, console_log = []\<rparr>"

definition execute_command :: "string \<Rightarrow> linux_wan \<Rightarrow> linux_wan" where
  "execute_command command w = w\<lparr>console_log := console_log w @ [command]\<rparr>"

text \<open>
  One turn of the loop over the options. \<open>IPv6Interface\<close> and \<open>IPv4Interface\<close> are the
  standard library's: \<open>ipv6_interface\<close> and \<open>ipv4_interface\<close> give the text of the parsed
  interface, or the error its constructor raises. The result is the error raised, if
  any, and the object's state at that moment.
\<close>

definition setup_option ::
  "(string \<Rightarrow> py_error + string) \<Rightarrow> (string \<Rightarrow> py_error + string) \<Rightarrow> string \<Rightarrow> string
    \<Rightarrow> linux_wan \<Rightarrow> py_error option \<times> linux_wan" where
  "setup_option ipv6_interface ipv4_interface iface_dut opt w =
     (if startswith opt ''wan-static-route:'' then
        (None, w\<lparr>static_route :=
           py_replace (py_replace opt ''wan-static-route:'' []) ''-'' '' via ''\<rparr>)
      else if opt = ''wan-dhcp-client'' then (None, w\<lparr>wan_dhcp := True\<rparr>)
      else if opt = ''wan-no-eth0'' then (None, w\<lparr>wan_no_eth0 := True\<rparr>)
      else if opt = ''wan-no-dhcp-server'' then (None, w\<lparr>wan_dhcp_server := False\<rparr>)
      else if opt = ''wan-dhcp-client-v6'' then (None, w\<lparr>wan_dhcpv6 := True\<rparr>)
      else if startswith opt ''wan-static-ipv6:'' then
        (case ipv6_interface (py_replace opt ''wan-static-ipv6:'' []) of
           Inl e \<Rightarrow> (Some e, w)
         | Inr ifc \<Rightarrow>
             (None,
              execute_command (''ip -6 addr add '' @ ifc @ '' dev '' @ iface_dut)
                (execute_command (''ip -6 addr del '' @ ifc @ '' dev '' @ iface_dut)
                  (execute_command
                    (''sysctl -w net.ipv6.conf.'' @ iface_dut @ ''.accept_dad=0'') w))))
      else if startswith opt ''wan-static-ip:'' then
        (case ipv4_interface (py_replace opt ''wan-static-ip:'' []) of
           Inl e \<Rightarrow> (Some e, w)
         | Inr ifc \<Rightarrow>
             (None,
              execute_command (''ip -4 addr add '' @ ifc @ '' dev '' @ iface_dut)
                (execute_command (''ip -4 addr del '' @ ifc @ '' dev '' @ iface_dut) w)))
      else (None, w))"

fun setup_options ::
  "(string \<Rightarrow> py_error + string) \<Rightarrow> (string \<Rightarrow> py_error + string) \<Rightarrow> string \<Rightarrow> string list
    \<Rightarrow> linux_wan \<Rightarrow> py_error option \<times> linux_wan" where
  "setup_options ipv6_interface ipv4_interface iface_dut [] w = (None, w)"
| "setup_options ipv6_interface ipv4_interface iface_dut (opt # options) w =
     (case setup_option ipv6_interface ipv4_interface iface_dut opt w of
        (Some e, w') \<Rightarrow> (Some e, w')
      | (None, w') \<Rightarrow> setup_options ipv6_interface ipv4_interface iface_dut options w')"

text \<open>The loop over the routes of a non-empty static route: \<open>ip route del\<close> of the part
  before the first \<open>via\<close>, then \<open>ip route add\<close> of the route.\<close>

fun setup_routes :: "string list \<Rightarrow> linux_wan \<Rightarrow> py_error option \<times> linux_wan" where
  "setup_routes [] w = (None, w)"
| "setup_routes (route # routes) w =
     (case py_index (py_split route ''via'') 0 of
        Inl e \<Rightarrow> (Some e, w)
      | Inr target \<Rightarrow>
          setup_routes routes
            (execute_command (''ip route add '' @ route)
              (execute_command (''ip route del '' @ target) w)))"

definition setup_wan ::
  "(string \<Rightarrow> py_error + string) \<Rightarrow> (string \<Rightarrow> py_error + string) \<Rightarrow> string \<Rightarrow> string option
    \<Rightarrow> linux_wan \<Rightarrow> py_error option \<times> linux_wan" where
  "setup_wan ipv6_interface ipv4_interface iface_dut config_options w =
     (case config_options of
        None \<Rightarrow> (None, w)
      | Some opts_text \<Rightarrow>
          (case setup_options ipv6_interface ipv4_interface iface_dut
                  (map py_strip (py_split opts_text '',''))
                  (execute_command (''ifconfig '' @ iface_dut @ '' up'')
                    (execute_command (''ifconfig '' @ iface_dut @ '' down'') w)) of
             (Some e, w') \<Rightarrow> (Some e, w')
           | (None, w') \<Rightarrow>
               if static_route w' \<noteq> [] then setup_routes (py_split (static_route w') '';'') w'
               else (None, w')))"

lemma execute_command_flag [simp]:
  "wan_dhcp_server (execute_command command w) = wan_dhcp_server w"
  by (simp add: execute_command_def)

lemma setup_option_flag:
  "wan_dhcp_server (snd (setup_option p6 p4 ifc opt w)) \<Longrightarrow> wan_dhcp_server w"
  by (simp add: setup_option_def split: if_splits sum.splits)

lemma setup_options_flag:
  "wan_dhcp_server (snd (setup_options p6 p4 ifc options w)) \<Longrightarrow> wan_dhcp_server w"
proof (induction options arbitrary: w)
  case Nil
  then show ?case by simp
next
  case (Cons opt options)
  obtain err w' where step: "setup_option p6 p4 ifc opt w = (err, w')"
    by (cases "setup_option p6 p4 ifc opt w")
  have "wan_dhcp_server w'"
    using Cons.prems Cons.IH [of w'] step by (cases err) simp_all
  then show ?case
    using setup_option_flag [of p6 p4 ifc opt w] step by simp
qed

lemma setup_routes_flag:
  "wan_dhcp_server (snd (setup_routes routes w)) = wan_dhcp_server w"
  by (induction routes arbitrary: w) (simp_all split: sum.splits)

lemma setup_wan_flag:
  "wan_dhcp_server (snd (setup_wan p6 p4 ifc config_options w)) \<Longrightarrow> wan_dhcp_server w"
proof (cases config_options)
  case None
  assume "wan_dhcp_server (snd (setup_wan p6 p4 ifc config_options w))"
  then show ?thesis using None by (simp add: setup_wan_def)
next
  case (Some opts_text)
  let ?w0 = "execute_command (''ifconfig '' @ ifc @ '' up'')
               (execute_command (''ifconfig '' @ ifc @ '' down'') w)"
  assume a: "wan_dhcp_server (snd (setup_wan p6 p4 ifc config_options w))"
  obtain err w' where run: "setup_options p6 p4 ifc (map py_strip (py_split opts_text '','')) ?w0 = (err, w')"
    by (cases "setup_options p6 p4 ifc (map py_strip (py_split opts_text '','')) ?w0")
  have "wan_dhcp_server w'"
    using a Some run by (cases err) (simp_all add: setup_wan_def setup_routes_flag split: if_splits)
  then have "wan_dhcp_server ?w0"
    using setup_options_flag [of p6 p4 ifc "map py_strip (py_split opts_text '','')" ?w0] run by simp
  then show ?thesis by simp
qed

text \<open>
  C9. The DHCP-server flag is false after construction and false after \<open>_setup_wan\<close>,
  whatever the options text is and whether the setup returns or raises. No directive
  sets it: after a directive the flag is true only if it was true before, and
  \<open>wan-no-dhcp-server\<close> leaves it false. (The class assigns the flag in these two places
  only, both times \<open>False\<close>.)
\<close>

theorem dhcp_server_flag_stays_false:
  "\<not> wan_dhcp_server linux_wan_init
   \<and> \<not> wan_dhcp_server (snd (setup_wan p6 p4 ifc config_options linux_wan_init))
   \<and> (wan_dhcp_server (snd (setup_option p6 p4 ifc opt w)) \<longrightarrow> wan_dhcp_server w)
   \<and> \<not> wan_dhcp_server (snd (setup_option p6 p4 ifc ''wan-no-dhcp-server'' w))"
proof (intro conjI impI)
  show init: "\<not> wan_dhcp_server linux_wan_init"
    by (simp add: linux_wan_init_def)
  show "\<not> wan_dhcp_server (snd (setup_wan p6 p4 ifc config_options linux_wan_init))"
    using init setup_wan_flag [of p6 p4 ifc config_options linux_wan_init] by blast
  show "wan_dhcp_server w" if "wan_dhcp_server (snd (setup_option p6 p4 ifc opt w))"
    using that by (rule setup_option_flag)
  show "\<not> wan_dhcp_server (snd (setup_option p6 p4 ifc ''wan-no-dhcp-server'' w))"
    by (simp add: setup_option_def startswith_def)
qed

text \<open>A run of the setup on an options text with a route, the DHCP-server directive and
  the DHCP-client directive.\<close>

definition wan_options_example :: string where
  "wan_options_example = ''wan-static-route:10.0.0.0/24-10.1.1.1, wan-no-dhcp-server,wan-dhcp-client''"

lemma wan_options_example_split:
  "map py_strip (py_split wan_options_example '','') = [''wan-static-route:10.0.0.0/24-10.1.1.1'', ''wan-no-dhcp-server'', ''wan-dhcp-client'']"
  by (simp add: wan_options_example_def py_split_def startswith_def py_strip_def is_space_def)

lemma wan_options_example_run:
  "setup_wan Inr Inr ''eth1'' (Some wan_options_example) linux_wan_init =
    (None, \<lparr>static_route = ''10.0.0.0/24 via 10.1.1.1'', wan_dhcp = True, wan_no_eth0 = False,
       wan_dhcp_server = False, wan_dhcpv6 = False,
       console_log = [''ifconfig eth1 down'', ''ifconfig eth1 up'',
         ''ip route del 10.0.0.0/24 '', ''ip route add 10.0.0.0/24 via 10.1.1.1'']\<rparr>)"
  by (simp add: setup_wan_def wan_options_example_split setup_option_def startswith_def execute_command_def
      linux_wan_init_def) (simp add: py_split_def py_index_def startswith_def execute_command_def)

theorem dhcp_server_flag_stays_false_witness:
  "\<not> wan_dhcp_server (snd (setup_wan Inr Inr ''eth1'' (Some wan_options_example) linux_wan_init))
   \<and> wan_dhcp (snd (setup_wan Inr Inr ''eth1'' (Some wan_options_example) linux_wan_init))
   \<and> wan_dhcp_server (snd (setup_option Inr Inr ''eth1'' ''wan-dhcp-client''
          (linux_wan_init\<lparr>wan_dhcp_server := True\<rparr>)))
   \<and> wan_dhcp_server (linux_wan_init\<lparr>wan_dhcp_server := True\<rparr>)"
proof -
  have a: "\<not> wan_dhcp_server
      (snd (setup_wan Inr Inr ''eth1'' (Some wan_options_example) linux_wan_init))"
    using dhcp_server_flag_stays_false [of Inr Inr "''eth1''" "Some wan_options_example"]
    by blast
  have b: "wan_dhcp (snd (setup_wan Inr Inr ''eth1'' (Some wan_options_example) linux_wan_init))"
    by (simp add: wan_options_example_run)
  have c: "wan_dhcp_server (snd (setup_option Inr Inr ''eth1'' ''wan-dhcp-client''
          (linux_wan_init\<lparr>wan_dhcp_server := True\<rparr>)))"
    by (simp add: setup_option_def startswith_def)
  have d: "wan_dhcp_server (linux_wan_init\<lparr>wan_dhcp_server := True\<rparr>)"
    using dhcp_server_flag_stays_false [of Inr Inr "''eth1''" None "''wan-dhcp-client''"
        "linux_wan_init\<lparr>wan_dhcp_server := True\<rparr>"] c
    by blast
  show ?thesis using a b c d by blast
qed

section \<open>Networking: the DNS book and \<open>configure_hosts\<close>\<close>

text \<open>
  An \<open>IPv6Address\<close> holds an integer in \<open>[0, 2^128)\<close>, with the same addition as
  \<open>IPv4Address\<close>.
\<close>

type_synonym ipv6 = "128 word"

definition ipv6_add :: "ipv6 \<Rightarrow> int \<Rightarrow> py_error + ipv6" where
  "ipv6_add a n =
     (if uint a + n < 0 \<or> 2 ^ 128 - 1 < uint a + n then Inl AddressValueError
      else Inr (word_of_int (uint a + n)))"

text \<open>
  \<open>str(IPv4Address)\<close> is the four octets in decimal, joined by dots; \<open>str_nat\<close> is
  Python's \<open>str\<close> of a non-negative integer.
\<close>

definition digit_char :: "nat \<Rightarrow> char" where
  "digit_char n = ''0123456789'' ! n"

function str_nat :: "nat \<Rightarrow> string" where
  "str_nat n = (if n < 10 then [digit_char n] else str_nat (n div 10) @ [digit_char (n mod 10)])"
  by pat_completeness auto
termination
  by (relation "measure id") auto

declare str_nat.simps [simp del]

definition ipv4_str :: "ipv4 \<Rightarrow> string" where
  "ipv4_str a =
     str_nat (unat a div 2 ^ 24) @ ''.'' @ str_nat (unat a div 2 ^ 16 mod 256) @ ''.''
       @ str_nat (unat a div 2 ^ 8 mod 256) @ ''.'' @ str_nat (unat a mod 256)"

text \<open>
  The address lists hold what the code puts there: the strings given to the
  constructor, the auxiliary address objects, and the strings \<open>str(ipv4)\<close> and
  \<open>str(ipv6)\<close> that \<open>configure_hosts\<close> appends. The text of an IPv6 address depends on the
  library version and is left symbolic: \<open>HStrV6 a\<close> is \<open>str(a)\<close>.

  The four books are \<open>defaultdict(list)\<close>: reading a missing name gives the empty list.
  \<open>__init__\<close> fills \<open>dnsv4\<close> and \<open>dnsv6\<close> and copies them into the hosts views with
  \<open>update\<close>. The views then share their list objects with \<open>dnsv4\<close> and \<open>dnsv6\<close>, but
  \<open>configure_hosts\<close> first rebinds the primary name to a fresh slice and appends to that
  one only, so the books can be maps to immutable lists.
\<close>

datatype host_entry = HStr string | HV4 ipv4 | HV6 ipv6 | HStrV6 ipv6

type_synonym host_book = "string \<rightharpoonup> host_entry list"

record dns =
  auxv4 :: "ipv4 option"
  auxv6 :: "ipv6 option"
  device_name :: string
  dnsv4 :: host_book
  dnsv6 :: host_book
  hosts_v4 :: host_book
  hosts_v6 :: host_book

definition dd_get :: "host_book \<Rightarrow> string \<Rightarrow> host_entry list" where
  "dd_get book name = (case book name of None \<Rightarrow> [] | Some entries \<Rightarrow> entries)"

definition dd_append :: "host_book \<Rightarrow> string \<Rightarrow> host_entry \<Rightarrow> host_book" where
  "dd_append book name entry = book(name \<mapsto> dd_get book name @ [entry])"

definition primary_name :: "dns \<Rightarrow> string" where
  "primary_name d = device_name d @ ''.boardfarm.com''"

text \<open>
  \<^verbatim>\<open>
  def _add_dns_addresses(self, ipv4_address, ipv6_address):
      if ipv4_address is not None:
          self.dnsv4[f"{self._device_name}{self._dns_name_suffix}"].append(ipv4_address)
      if ipv6_address is not None:
          self.dnsv6[f"{self._device_name}{self._dns_name_suffix}"].append(ipv6_address)

  def _add_aux_dns_addresses(self, aux_url):
      if self.auxv4 is not None:
          self.dnsv4[f"{self._device_name}{self._dns_name_suffix}"].append(self.auxv4)
          if aux_url is not None:
              self.dnsv4[aux_url].append(self.auxv4)
      if self.auxv6 is not None: ...   (the same on dnsv6)
  \<close>
\<close>

definition add_dns_addresses :: "string option \<Rightarrow> string option \<Rightarrow> dns \<Rightarrow> dns" where
  "add_dns_addresses ipv4_address ipv6_address d =
     (let d1 = (case ipv4_address of
                  None \<Rightarrow> d
                | Some a \<Rightarrow> d\<lparr>dnsv4 := dd_append (dnsv4 d) (primary_name d) (HStr a)\<rparr>)
      in case ipv6_address of
           None \<Rightarrow> d1
         | Some a \<Rightarrow> d1\<lparr>dnsv6 := dd_append (dnsv6 d1) (primary_name d1) (HStr a)\<rparr>)"

definition add_aux_dns_addresses :: "string option \<Rightarrow> dns \<Rightarrow> dns" where
  "add_aux_dns_addresses aux_url d =
     (let d1 = (case auxv4 d of
                  None \<Rightarrow> d
                | Some a \<Rightarrow>
                    (let d' = d\<lparr>dnsv4 := dd_append (dnsv4 d) (primary_name d) (HV4 a)\<rparr>
                     in case aux_url of
                          None \<Rightarrow> d'
                        | Some url \<Rightarrow> d'\<lparr>dnsv4 := dd_append (dnsv4 d') url (HV4 a)\<rparr>))
      in case auxv6 d1 of
           None \<Rightarrow> d1
         | Some a \<Rightarrow>
             (let d' = d1\<lparr>dnsv6 := dd_append (dnsv6 d1) (primary_name d1) (HV6 a)\<rparr>
              in case aux_url of
                   None \<Rightarrow> d'
                 | Some url \<Rightarrow> d'\<lparr>dnsv6 := dd_append (dnsv6 d') url (HV6 a)\<rparr>))"

definition dns_init ::
  "string \<Rightarrow> string option \<Rightarrow> string option \<Rightarrow> ipv4 option \<Rightarrow> ipv6 option \<Rightarrow> string option \<Rightarrow> dns" where
  "dns_init name ipv4_address ipv6_address ipv4_aux_address ipv6_aux_address aux_url =
     (let d = add_aux_dns_addresses aux_url
                (add_dns_addresses ipv4_address ipv6_address
                  \<lparr>auxv4 = ipv4_aux_address, auxv6 = ipv6_aux_address, device_name = name,
                   dnsv4 = Map.empty, dnsv6 = Map.empty,
                   hosts_v4 = Map.empty, hosts_v6 = Map.empty\<rparr>)
      in d\<lparr>hosts_v4 := hosts_v4 d ++ dnsv4 d, hosts_v6 := hosts_v6 d ++ dnsv6 d\<rparr>)"

text \<open>\<open>xs[:n]\<close>: the first \<open>n\<close> items, or all but the last \<open>-n\<close> when \<open>n\<close> is negative.\<close>

definition py_slice_to :: "'a list \<Rightarrow> int \<Rightarrow> 'a list" where
  "py_slice_to xs n = (if 0 \<le> n then take (nat n) xs else take (length xs - nat (- n)) xs)"

text \<open>
  \<^verbatim>\<open>
  val_v4 = self.hosts_v4[name][:reachable_ipv4]
  val_v6 = self.hosts_v6[name][:reachable_ipv6]
  self.hosts_v4[name] = val_v4
  self.hosts_v6[name] = val_v6
  for val in range(unreachable_ipv4):
      ipv4 = self.auxv4 + (val + 1)
      self.hosts_v4[name].append(str(ipv4))
  for val in range(unreachable_ipv6):
      ipv6 = self.auxv6 + (val + 1)
      self.hosts_v6[name].append(str(ipv6))
  \<close>
  with \<open>name\<close> the primary name. \<open>None + int\<close> raises TypeError, an address out of range
  AddressValueError. The result is the error raised, if any, and the object's state at
  that moment.
\<close>

fun unreachable_v4 :: "nat list \<Rightarrow> dns \<Rightarrow> py_error option \<times> dns" where
  "unreachable_v4 [] d = (None, d)"
| "unreachable_v4 (val # vals) d =
     (case auxv4 d of
        None \<Rightarrow> (Some TypeError, d)
      | Some aux \<Rightarrow>
          (case ipv4_add aux (int val + 1) of
             Inl e \<Rightarrow> (Some e, d)
           | Inr ipv4 \<Rightarrow>
               unreachable_v4 vals
                 (d\<lparr>hosts_v4 := dd_append (hosts_v4 d) (primary_name d) (HStr (ipv4_str ipv4))\<rparr>)))"

fun unreachable_v6 :: "nat list \<Rightarrow> dns \<Rightarrow> py_error option \<times> dns" where
  "unreachable_v6 [] d = (None, d)"
| "unreachable_v6 (val # vals) d =
     (case auxv6 d of
        None \<Rightarrow> (Some TypeError, d)
      | Some aux \<Rightarrow>
          (case ipv6_add aux (int val + 1) of
             Inl e \<Rightarrow> (Some e, d)
           | Inr ipv6 \<Rightarrow>
               unreachable_v6 vals
                 (d\<lparr>hosts_v6 := dd_append (hosts_v6 d) (primary_name d) (HStrV6 ipv6)\<rparr>)))"

definition configure_hosts :: "int \<Rightarrow> int \<Rightarrow> int \<Rightarrow> int \<Rightarrow> dns \<Rightarrow> py_error option \<times> dns" where
  "configure_hosts reachable_ipv4 unreachable_ipv4 reachable_ipv6 unreachable_ipv6 d =
     (let val_v4 = py_slice_to (dd_get (hosts_v4 d) (primary_name d)) reachable_ipv4;
          val_v6 = py_slice_to (dd_get (hosts_v6 d) (primary_name d)) reachable_ipv6;
          d1 = d\<lparr>hosts_v4 := (hosts_v4 d)(primary_name d \<mapsto> val_v4),
                 hosts_v6 := (hosts_v6 d)(primary_name d \<mapsto> val_v6)\<rparr>
      in case unreachable_v4 [0..<nat unreachable_ipv4] d1 of
           (Some e, d2) \<Rightarrow> (Some e, d2)
         | (None, d2) \<Rightarrow> unreachable_v6 [0..<nat unreachable_ipv6] d2)"

text \<open>The specification's instance: device name \<open>wan\<close>, address \<open>10.0.0.1\<close>, auxiliary
  address \<open>10.0.0.100\<close>.\<close>

definition wan_dns :: dns where
  "wan_dns = dns_init ''wan'' (Some ''10.0.0.1'') None (Some 0x0A000064) None None"

lemma wan_dns_hosts: "dd_get (hosts_v4 wan_dns) ''wan.boardfarm.com'' = [HStr ''10.0.0.1'', HV4 0x0A000064]"
  by (simp add: wan_dns_def dns_init_def add_dns_addresses_def add_aux_dns_addresses_def
      dd_append_def dd_get_def primary_name_def Let_def)


lemma primary_name_hosts_v4 [simp]: "primary_name (d\<lparr>hosts_v4 := h\<rparr>) = primary_name d"
  by (simp add: primary_name_def)

lemma primary_name_hosts_v6 [simp]: "primary_name (d\<lparr>hosts_v6 := h\<rparr>) = primary_name d"
  by (simp add: primary_name_def)

lemma dd_get_upd_same [simp]: "dd_get (book(name \<mapsto> entries)) name = entries"
  by (simp add: dd_get_def)




lemma unreachable_v4_ok:
  "auxv4 d = Some a \<Longrightarrow> \<forall>v\<in>set vals. uint a + int v + 1 < 2 ^ 32 \<Longrightarrow>
   fst (unreachable_v4 vals d) = None
   \<and> dd_get (hosts_v4 (snd (unreachable_v4 vals d))) (primary_name d)
       = dd_get (hosts_v4 d) (primary_name d)
           @ map (\<lambda>v. HStr (ipv4_str (word_of_int (uint a + (int v + 1))))) vals"
proof (induction vals arbitrary: d)
  case Nil
  show ?case by simp
next
  case (Cons v vals)
  let ?ip = "word_of_int (uint a + (int v + 1)) :: ipv4"
  let ?d' = "d\<lparr>hosts_v4 := dd_append (hosts_v4 d) (primary_name d) (HStr (ipv4_str ?ip))\<rparr>"
  have "0 \<le> uint a + (int v + 1)" by simp
  moreover have "uint a + (int v + 1) < 2 ^ 32" using Cons.prems(2) by (simp add: add.assoc)
  ultimately have add: "ipv4_add a (int v + 1) = Inr ?ip"
    by (rule ipv4_add_ok)
  have step: "unreachable_v4 (v # vals) d = unreachable_v4 vals ?d'"
    using Cons.prems(1) add by simp
  have aux': "auxv4 ?d' = Some a" using Cons.prems(1) by simp
  have rest: "\<forall>v\<in>set vals. uint a + int v + 1 < 2 ^ 32" using Cons.prems(2) by simp
  have name: "primary_name ?d' = primary_name d" by simp
  have now: "dd_get (hosts_v4 ?d') (primary_name d)
      = dd_get (hosts_v4 d) (primary_name d) @ [HStr (ipv4_str ?ip)]"
    by (simp add: dd_append_def)
  from Cons.IH [OF aux' rest]
  have ok: "fst (unreachable_v4 vals ?d') = None"
    and hosts: "dd_get (hosts_v4 (snd (unreachable_v4 vals ?d'))) (primary_name ?d')
       = dd_get (hosts_v4 ?d') (primary_name ?d')
           @ map (\<lambda>v. HStr (ipv4_str (word_of_int (uint a + (int v + 1))))) vals"
    by blast+
  show ?case
    unfolding step using ok hosts [unfolded name now] by simp
qed

lemma unreachable_v4_overflow:
  "auxv4 d = Some a \<Longrightarrow> k < n \<Longrightarrow> 2 ^ 32 - 1 < uint a + int n \<Longrightarrow>
   fst (unreachable_v4 [k..<n] d) = Some AddressValueError"
proof (induction "n - k" arbitrary: k d)
  case 0
  then show ?case by simp
next
  case (Suc m)
  have upt: "[k..<n] = k # [Suc k..<n]" using Suc.prems(2) by (simp add: upt_conv_Cons)
  show ?case
  proof (cases "2 ^ 32 - 1 < uint a + (int k + 1)")
    case True
    then have "ipv4_add a (int k + 1) = Inl AddressValueError" by (rule ipv4_add_overflow)
    then show ?thesis unfolding upt using Suc.prems(1) by simp
  next
    case False
    then have fits: "uint a + (int k + 1) < 2 ^ 32" by simp
    have "0 \<le> uint a + (int k + 1)" by simp
    then have add: "ipv4_add a (int k + 1) = Inr (word_of_int (uint a + (int k + 1)))"
      using fits by (rule ipv4_add_ok)
    have lt: "Suc k < n" using fits Suc.prems(2,3) by linarith
    have m: "m = n - Suc k" using Suc.hyps(2) by simp
    let ?d' = "d\<lparr>hosts_v4 := dd_append (hosts_v4 d) (primary_name d)
        (HStr (ipv4_str (word_of_int (uint a + (int k + 1)))))\<rparr>"
    have aux': "auxv4 ?d' = Some a" using Suc.prems(1) by simp
    have "fst (unreachable_v4 [Suc k..<n] ?d') = Some AddressValueError"
      using Suc.hyps(1) [OF m aux' lt Suc.prems(3)] .
    then show ?thesis unfolding upt using Suc.prems(1) add by simp
  qed
qed


lemma synthetic_upt:
  "map (\<lambda>v. HStr (ipv4_str (word_of_int (uint a + (int v + 1))))) [0..<n]
     = map (\<lambda>i. HStr (ipv4_str (a + of_nat i))) [1..<Suc n]"
proof -
  have "[1..<Suc n] = map Suc [0..<n]"
    by (simp add: map_Suc_upt del: upt_Suc)
  then show ?thesis
    by (simp add: o_def add.commute del: upt_Suc)
qed

text \<open>The state after the two assignments, before the loops.\<close>

definition truncated :: "int \<Rightarrow> int \<Rightarrow> dns \<Rightarrow> dns" where
  "truncated reachable_ipv4 reachable_ipv6 d =
     d\<lparr>hosts_v4 := (hosts_v4 d)(primary_name d \<mapsto>
            py_slice_to (dd_get (hosts_v4 d) (primary_name d)) reachable_ipv4),
       hosts_v6 := (hosts_v6 d)(primary_name d \<mapsto>
            py_slice_to (dd_get (hosts_v6 d) (primary_name d)) reachable_ipv6)\<rparr>"

lemma configure_hosts_unfold:
  "configure_hosts r4 u4 r6 u6 d =
     (case unreachable_v4 [0..<nat u4] (truncated r4 r6 d) of
        (Some e, d2) \<Rightarrow> (Some e, d2)
      | (None, d2) \<Rightarrow> unreachable_v6 [0..<nat u6] d2)"
  by (simp add: configure_hosts_def truncated_def Let_def)

lemma truncated_fields [simp]:
  "auxv4 (truncated r4 r6 d) = auxv4 d"
  "auxv6 (truncated r4 r6 d) = auxv6 d"
  "primary_name (truncated r4 r6 d) = primary_name d"
  "dd_get (hosts_v4 (truncated r4 r6 d)) (primary_name d)
     = py_slice_to (dd_get (hosts_v4 d) (primary_name d)) r4"
  by (simp_all add: truncated_def)

lemma configure_hosts_ipv4_ok:
  assumes aux: "auxv4 d = Some a" and r: "0 \<le> r" and u: "0 \<le> u"
    and fits: "uint a + u \<le> 2 ^ 32 - 1"
  shows "fst (configure_hosts r u 0 0 d) = None"
    and "dd_get (hosts_v4 (snd (configure_hosts r u 0 0 d))) (primary_name d)
       = take (nat r) (dd_get (hosts_v4 d) (primary_name d))
           @ map (\<lambda>i. HStr (ipv4_str (a + of_nat i))) [1..<Suc (nat u)]"
proof -
  let ?d1 = "truncated r 0 d"
  have aux1: "auxv4 ?d1 = Some a" using aux by simp
  have bound: "\<forall>v\<in>set [0..<nat u]. uint a + int v + 1 < 2 ^ 32"
    using fits by auto
  from unreachable_v4_ok [OF aux1 bound]
  have ok: "fst (unreachable_v4 [0..<nat u] ?d1) = None"
    and hosts: "dd_get (hosts_v4 (snd (unreachable_v4 [0..<nat u] ?d1))) (primary_name ?d1)
       = dd_get (hosts_v4 ?d1) (primary_name ?d1)
           @ map (\<lambda>v. HStr (ipv4_str (word_of_int (uint a + (int v + 1))))) [0..<nat u]"
    by blast+
  obtain d2 where run: "unreachable_v4 [0..<nat u] ?d1 = (None, d2)"
    using ok by (cases "unreachable_v4 [0..<nat u] ?d1") simp
  have res: "configure_hosts r u 0 0 d = (None, d2)"
    unfolding configure_hosts_unfold run by simp
  show "fst (configure_hosts r u 0 0 d) = None"
    unfolding res by simp
  have "dd_get (hosts_v4 d2) (primary_name d)
       = py_slice_to (dd_get (hosts_v4 d) (primary_name d)) r
           @ map (\<lambda>v. HStr (ipv4_str (word_of_int (uint a + (int v + 1))))) [0..<nat u]"
    using hosts unfolding run by simp
  then show "dd_get (hosts_v4 (snd (configure_hosts r u 0 0 d))) (primary_name d)
       = take (nat r) (dd_get (hosts_v4 d) (primary_name d))
           @ map (\<lambda>i. HStr (ipv4_str (a + of_nat i))) [1..<Suc (nat u)]"
    unfolding res synthetic_upt using r by (simp add: py_slice_to_def)
qed

lemma configure_hosts_ipv4_overflow:
  assumes aux: "auxv4 d = Some a" and fits: "2 ^ 32 - 1 < uint a + u"
  shows "fst (configure_hosts r u r6 u6 d) = Some AddressValueError"
proof -
  have pos: "0 < nat u"
  proof -
    have "uint a < 2 ^ 32" using uint_bounded [of a] by simp
    then show ?thesis using fits by simp
  qed
  have over: "2 ^ 32 - 1 < uint a + int (nat u)" using fits pos by simp
  have aux1: "auxv4 (truncated r r6 d) = Some a" using aux by simp
  have "fst (unreachable_v4 [0..<nat u] (truncated r r6 d)) = Some AddressValueError"
    using unreachable_v4_overflow [OF aux1 pos over] .
  then show ?thesis
    unfolding configure_hosts_unfold
    by (cases "unreachable_v4 [0..<nat u] (truncated r r6 d)") simp
qed




text \<open>Two more instances: one whose auxiliary address is the last address,
  255.255.255.255, and one with no auxiliary address.\<close>

definition edge_dns :: dns where
  "edge_dns = dns_init ''wan'' (Some ''10.0.0.1'') None (Some 0xFFFFFFFF) None None"


lemma wan_dns_fields:
  "auxv4 wan_dns = Some 0x0A000064" "primary_name wan_dns = ''wan.boardfarm.com''"
  by (simp_all add: wan_dns_def dns_init_def add_dns_addresses_def add_aux_dns_addresses_def
      primary_name_def Let_def)

lemma edge_dns_fields:
  "auxv4 edge_dns = Some 0xFFFFFFFF" "primary_name edge_dns = ''wan.boardfarm.com''"
  "dd_get (hosts_v4 edge_dns) ''wan.boardfarm.com'' = [HStr ''10.0.0.1'', HV4 0xFFFFFFFF]"
  by (simp_all add: edge_dns_def dns_init_def add_dns_addresses_def add_aux_dns_addresses_def
      dd_append_def dd_get_def primary_name_def Let_def)


text \<open>
  C4, the claim as stated: for every instance with an auxiliary IPv4 address and all
  counts \<open>r, u \<ge> 0\<close>, the call leaves the first \<open>r\<close> entries followed by \<open>u\<close> synthetic
  addresses. With the auxiliary address 255.255.255.255 and \<open>u = 1\<close> there is no address
  \<open>aux + 1\<close>: the call raises AddressValueError and the list holds the first entry only.
\<close>

theorem configure_hosts_last_address:
  "fst (configure_hosts 1 1 0 0 edge_dns) = Some AddressValueError
   \<and> dd_get (hosts_v4 (snd (configure_hosts 1 1 0 0 edge_dns))) ''wan.boardfarm.com''
       = [HStr ''10.0.0.1'']"
  by (simp add: configure_hosts_unfold truncated_def edge_dns_fields ipv4_add_def
      py_slice_to_def)

text \<open>
  C4, amended. For an instance with auxiliary IPv4 address \<open>aux\<close> and counts \<open>r, u \<ge> 0\<close>
  such that \<open>aux + u\<close> is still an IPv4 address, \<open>configure_hosts(r, u, 0, 0)\<close> returns, and
  the IPv4 hosts view of the primary name is then the first \<open>r\<close> entries of its previous
  value followed by the texts of \<open>aux + 1, ..., aux + u\<close>.
  (Lemma \<open>configure_hosts_ipv4_overflow\<close>: otherwise the call raises AddressValueError.)
\<close>

theorem configure_hosts_ipv4_view:
  assumes "auxv4 d = Some a" and "0 \<le> r" and "0 \<le> u" and "uint a + u \<le> 2 ^ 32 - 1"
  shows "fst (configure_hosts r u 0 0 d) = None
     \<and> dd_get (hosts_v4 (snd (configure_hosts r u 0 0 d))) (primary_name d)
         = take (nat r) (dd_get (hosts_v4 d) (primary_name d))
             @ map (\<lambda>i. HStr (ipv4_str (a + of_nat i))) [1..<Suc (nat u)]"
  using configure_hosts_ipv4_ok [OF assms] by blast

theorem configure_hosts_ipv4_view_witness:
  "auxv4 wan_dns = Some 0x0A000064 \<and> (0::int) \<le> 1 \<and> (0::int) \<le> 2
   \<and> uint (0x0A000064 :: ipv4) + 2 \<le> 2 ^ 32 - 1
   \<and> dd_get (hosts_v4 wan_dns) ''wan.boardfarm.com'' = [HStr ''10.0.0.1'', HV4 0x0A000064]
   \<and> fst (configure_hosts 1 2 0 0 wan_dns) = None
   \<and> dd_get (hosts_v4 (snd (configure_hosts 1 2 0 0 wan_dns))) ''wan.boardfarm.com''
       = [HStr ''10.0.0.1'', HStr ''10.0.0.101'', HStr ''10.0.0.102'']"
proof -
  have h: "auxv4 wan_dns = Some 0x0A000064" by (rule wan_dns_fields)
  have fits: "uint (0x0A000064 :: ipv4) + 2 \<le> 2 ^ 32 - 1" by simp
  have s1: "ipv4_str 0x0A000065 = ''10.0.0.101''"
    by (simp add: ipv4_str_def str_nat.simps digit_char_def)
  have s2: "ipv4_str 0x0A000066 = ''10.0.0.102''"
    by (simp add: ipv4_str_def str_nat.simps digit_char_def)
  have upt: "[1..<Suc (nat 2)] = [1, 2]" by (simp add: upt_conv_Cons)
  from configure_hosts_ipv4_view [OF h _ _ fits, of 1]
  have ok: "fst (configure_hosts 1 2 0 0 wan_dns) = None"
    and hosts: "dd_get (hosts_v4 (snd (configure_hosts 1 2 0 0 wan_dns))) (primary_name wan_dns)
       = take (nat 1) (dd_get (hosts_v4 wan_dns) (primary_name wan_dns))
           @ map (\<lambda>i. HStr (ipv4_str (0x0A000064 + of_nat i))) [1..<Suc (nat 2)]"
    by simp_all
  have "dd_get (hosts_v4 (snd (configure_hosts 1 2 0 0 wan_dns))) ''wan.boardfarm.com''
       = [HStr ''10.0.0.1'', HStr ''10.0.0.101'', HStr ''10.0.0.102'']"
    using hosts unfolding upt wan_dns_fields wan_dns_hosts by (simp add: s1 s2)
  then show ?thesis using h fits ok wan_dns_hosts by simp
qed



section \<open>The core plugin: the interactive shell\<close>

text \<open>
  \<open>s.isdigit()\<close>: a non-empty string of digit characters. Below 256 these are the
  decimal digits 0 to 9 and the superscript digits two, three and one (178, 179, 185).

  \<open>int(s)\<close>, as far as the shell uses it (on a string that \<open>isdigit\<close> accepted): the
  decimal value of a string of the digits 0 to 9, leading zeros allowed. It raises
  ValueError on a superscript digit, and on more than 4300 digits, the default of
  \<open>sys.int_max_str_digits\<close> since Python 3.11.
\<close>

definition is_decimal_char :: "char \<Rightarrow> bool" where
  "is_decimal_char c = (48 \<le> (of_char c :: nat) \<and> (of_char c :: nat) \<le> 57)"

definition is_digit_char :: "char \<Rightarrow> bool" where
  "is_digit_char c = (is_decimal_char c
     \<or> (of_char c :: nat) = 178 \<or> (of_char c :: nat) = 179 \<or> (of_char c :: nat) = 185)"

definition isdigit :: "string \<Rightarrow> bool" where
  "isdigit s = (s \<noteq> [] \<and> list_all is_digit_char s)"

definition int_max_str_digits :: nat where
  "int_max_str_digits = 4300"

definition py_int :: "string \<Rightarrow> py_error + int" where
  "py_int s =
     (if s \<noteq> [] \<and> list_all is_decimal_char s \<and> length s \<le> int_max_str_digits
      then Inr (foldl (\<lambda>acc c. 10 * acc + (int (of_char c) - 48)) 0 s)
      else Inl ValueError)"

text \<open>
  A device as the shell sees it: its type and the names of its interactive consoles
  (the keys of \<open>get_interactive_consoles()\<close>). The devices dictionary is the list of its
  items. What the shell writes and does is a list of events: a printed line, a row of
  the device table (index, name, type, number of consoles), the console menu, a prompt
  of \<open>input\<close>, and a hand-over to a console's interactive session (console, device).
  The operator's lines are a list; \<open>input\<close> at its end raises EOFError.
\<close>

record device =
  device_type :: string
  interactive_consoles :: "string list"

datatype event =
    Print string
  | Row nat string string nat
  | Menu "(nat \<times> string) list"
  | Prompt string
  | Session string string

definition nl :: string where
  "nl = [CHR 0x0A]"

definition wrong_input :: string where
  "wrong_input = nl @ ''ERROR: Wrong input. Please try again.'' @ nl"

definition wrong_device_id :: string where
  "wrong_device_id = nl @ ''ERROR: Wrong device ID. Please try again.'' @ nl"

definition wrong_console_id :: string where
  "wrong_console_id = nl @ ''ERROR: Wrong console ID. Please try again.'' @ nl"

definition no_console :: "string \<Rightarrow> string" where
  "no_console dev_name =
     nl @ ''ERROR: No console available for '' @ dev_name @ ''. Please try another device.'' @ nl"

text \<open>
  \<^verbatim>\<open>
  device_names = sorted(list(devices_dict.keys()))
  for i, device_name in enumerate(device_names, start=1):
      device = devices_dict.get(device_name)
      num_consoles = len(device.get_interactive_consoles())
      print(f"{i: >2}  {device_name: <16} {device.device_type: <16} {num_consoles}")
  print(f"\nEnter '{exit_code}' to exit the interactive shell.\n")
  device_name = None
  device_id = input("Please enter a device ID: ")
  if device_id == exit_code:
      device_name = device_id
  elif not device_id.isdigit():
      print("\nERROR: Wrong input. Please try again.\n")
  elif int(device_id) > len(device_names):
      print("\nERROR: Wrong device ID. Please try again.\n")
  else:
      device_name = device_names[int(device_id) - 1]
  return device_name
  \<close>
\<close>

fun table_rows :: "(string \<times> device) list \<Rightarrow> nat \<Rightarrow> string list \<Rightarrow> event list \<times> py_error option" where
  "table_rows devices_dict i [] = ([], None)"
| "table_rows devices_dict i (dev_name # names) =
     (case map_of devices_dict dev_name of
        None \<Rightarrow> ([], Some AttributeError)
      | Some device \<Rightarrow>
          (case table_rows devices_dict (Suc i) names of
             (rows, err) \<Rightarrow>
               (Row i dev_name (device_type device) (length (interactive_consoles device)) # rows,
                err)))"

definition get_device_name_from_user ::
  "(string \<times> device) list \<Rightarrow> string \<Rightarrow> string list \<Rightarrow> event list \<times> (py_error + string option)" where
  "get_device_name_from_user devices_dict exit_code inputs =
     (let device_names = sort (map fst devices_dict);
          header = [Print ''----------------------------------------------'',
                    Print ''ID  Device name      Device type      Consoles'',
                    Print ''----------------------------------------------'']
      in case table_rows devices_dict 1 device_names of
           (rows, Some e) \<Rightarrow> (header @ rows, Inl e)
         | (rows, None) \<Rightarrow>
             (let shown = header @ rows
                    @ [Print (nl @ ''Enter '' @ [CHR 0x27] @ exit_code @ [CHR 0x27]
                              @ '' to exit the interactive shell.'' @ nl),
                       Prompt ''Please enter a device ID: '']
              in case inputs of
                   [] \<Rightarrow> (shown, Inl EOFError)
                 | device_id # _ \<Rightarrow>
                     if device_id = exit_code then (shown, Inr (Some device_id))
                     else if \<not> isdigit device_id then (shown @ [Print wrong_input], Inr None)
                     else
                       (case py_int device_id of
                          Inl e \<Rightarrow> (shown, Inl e)
                        | Inr n \<Rightarrow>
                            if int (length device_names) < n
                            then (shown @ [Print wrong_device_id], Inr None)
                            else (case py_index device_names (n - 1) of
                                    Inl e \<Rightarrow> (shown, Inl e)
                                  | Inr dev_name \<Rightarrow> (shown, Inr (Some dev_name))))))"

text \<open>
  \<open>_get_console_name_from_user\<close>: no console is an error message and no choice, one
  console is chosen without asking, otherwise the menu is shown and a line read until
  it is a number not above the number of consoles. The third component of the result
  is the number of input lines read.
\<close>

definition console_menu :: "string \<Rightarrow> string list \<Rightarrow> event list" where
  "console_menu dev_name console_names =
     [Print (dev_name @ [CHR 0x27] @ '' has more than one console.'')]
     @ [Menu (zip [1..<Suc (length console_names)] console_names),
        Prompt ''Please enter a console ID: '']"

fun get_console_name_from_user ::
  "string \<Rightarrow> string list \<Rightarrow> string list \<Rightarrow> event list \<times> (py_error + string option) \<times> nat" where
  "get_console_name_from_user dev_name console_names [] =
     (if console_names = [] then ([Print (no_console dev_name)], Inr None, 0)
      else if length console_names = 1
      then ([], map_sum id Some (py_index console_names 0), 0)
      else (console_menu dev_name console_names, Inl EOFError, 0))"
| "get_console_name_from_user dev_name console_names (console_id # inputs) =
     (if console_names = [] then ([Print (no_console dev_name)], Inr None, 0)
      else if length console_names = 1
      then ([], map_sum id Some (py_index console_names 0), 0)
      else if \<not> isdigit console_id then
        (case get_console_name_from_user dev_name console_names inputs of
           (events, result, used) \<Rightarrow>
             (console_menu dev_name console_names @ [Print wrong_input] @ events, result, Suc used))
      else
        (case py_int console_id of
           Inl e \<Rightarrow> (console_menu dev_name console_names, Inl e, 1)
         | Inr n \<Rightarrow>
             if int (length console_names) < n then
               (case get_console_name_from_user dev_name console_names inputs of
                  (events, result, used) \<Rightarrow>
                    (console_menu dev_name console_names @ [Print wrong_console_id] @ events,
                     result, Suc used))
             else (console_menu dev_name console_names,
                   map_sum id Some (py_index console_names (n - 1)), 1)))"

text \<open>
  The loop of \<open>boardfarm_post_deploy_devices\<close>, with \<open>exit_code = "q"\<close>: it ends when there
  is no device, when the device prompt returns the exit code, or when something raises.
\<close>

fun shell_loop :: "(string \<times> device) list \<Rightarrow> string list \<Rightarrow> event list \<times> py_error option" where
  "shell_loop devices_dict [] =
     (if devices_dict = [] then ([Print ''No device available in the environment.''], None)
      else case get_device_name_from_user devices_dict ''q'' [] of
             (events, Inl e) \<Rightarrow> (events, Some e)
           | (events, Inr _) \<Rightarrow> (events, None))"
| "shell_loop devices_dict (device_id # inputs) =
     (if devices_dict = [] then ([Print ''No device available in the environment.''], None)
      else case get_device_name_from_user devices_dict ''q'' (device_id # inputs) of
             (events, Inl e) \<Rightarrow> (events, Some e)
           | (events, Inr None) \<Rightarrow>
               (case shell_loop devices_dict inputs of
                  (later, err) \<Rightarrow> (events @ later, err))
           | (events, Inr (Some dev_name)) \<Rightarrow>
               if dev_name = ''q'' then (events, None)
               else
                 (case map_of devices_dict dev_name of
                    None \<Rightarrow> (events, Some AttributeError)
                  | Some device \<Rightarrow>
                      (case get_console_name_from_user dev_name (sort (interactive_consoles device)) inputs of
                         (asked, Inl e, used) \<Rightarrow> (events @ asked, Some e)
                       | (asked, Inr None, used) \<Rightarrow>
                           (case shell_loop devices_dict (drop used inputs) of
                              (later, err) \<Rightarrow> (events @ asked @ later, err))
                       | (asked, Inr (Some console_name), used) \<Rightarrow>
                           (case shell_loop devices_dict (drop used inputs) of
                              (later, err) \<Rightarrow>
                                (events @ asked
                                   @ [Print (nl @ ''Entering into '' @ console_name @ ''(''
                                               @ dev_name @ '')'' @ nl),
                                      Session console_name dev_name, Print nl]
                                   @ later, err)))))"

definition boardfarm_post_deploy_devices ::
  "(string \<times> device) list \<Rightarrow> string list \<Rightarrow> event list \<times> py_error option" where
  "boardfarm_post_deploy_devices devices_dict inputs =
     (let banner = [Print (''----------------------------------------------'' @ nl),
                    Print (''         BOARDFARM INTERACTIVE SHELL'' @ nl)]
      in case shell_loop devices_dict inputs of
           (events, Some e) \<Rightarrow> (banner @ events, Some e)
         | (events, None) \<Rightarrow> (banner @ events @ [Print ''Bye.''], None))"

definition is_session :: "event \<Rightarrow> bool" where
  "is_session e = (case e of Session _ _ \<Rightarrow> True | _ \<Rightarrow> False)"

text \<open>The specification's two devices, \<open>b_dev\<close> and \<open>a_dev\<close>, each with one console.\<close>

definition two_devices :: "(string \<times> device) list" where
  "two_devices =
     [(''b_dev'', \<lparr>device_type = ''debian_wan'', interactive_consoles = [''console'']\<rparr>),
      (''a_dev'', \<lparr>device_type = ''debian_lan'', interactive_consoles = [''console'']\<rparr>)]"


lemma two_devices_names: "sort (map fst two_devices) = [''a_dev'', ''b_dev'']"
  by (simp add: two_devices_def less_eq_char_def less_char_def)

lemma table_rows_ok:
  "set names \<subseteq> fst ` set devices_dict \<Longrightarrow> snd (table_rows devices_dict i names) = None"
proof (induction names arbitrary: i)
  case Nil
  show ?case by simp
next
  case (Cons n names)
  then have "n \<in> fst ` set devices_dict" by simp
  then obtain device where "map_of devices_dict n = Some device"
    by (cases "map_of devices_dict n") (auto simp: map_of_eq_None_iff)
  moreover have "snd (table_rows devices_dict (Suc i) names) = None"
    using Cons by simp
  ultimately show ?case by (auto split: prod.splits)
qed

lemma table_rows_no_session:
  "list_all (\<lambda>e. \<not> is_session e) (fst (table_rows devices_dict i names))"
proof (induction names arbitrary: i)
  case Nil
  show ?case by simp
next
  case (Cons n names)
  obtain rows err where rest: "table_rows devices_dict (Suc i) names = (rows, err)"
    by (cases "table_rows devices_dict (Suc i) names")
  have "list_all (\<lambda>e. \<not> is_session e) rows"
    using Cons [of "Suc i"] rest by simp
  then show ?case
    using rest by (cases "map_of devices_dict n") (simp_all add: is_session_def)
qed

lemma table_shown:
  "\<exists>rows. table_rows devices_dict 1 (sort (map fst devices_dict)) = (rows, None)"
proof -
  have "snd (table_rows devices_dict 1 (sort (map fst devices_dict))) = None"
    by (rule table_rows_ok) simp
  then show ?thesis
    by (cases "table_rows devices_dict 1 (sort (map fst devices_dict))") simp
qed

text \<open>What the prompt does with a line that is not the exit code and is not made of
  digits, or is a number above the number of devices: the error message, no device, no
  session.\<close>

lemma device_prompt_rejects:
  assumes "device_id \<noteq> exit_code"
    and "\<not> isdigit device_id
      \<or> (\<exists>n. py_int device_id = Inr n \<and> int (length devices_dict) < n)"
  shows "snd (get_device_name_from_user devices_dict exit_code (device_id # inputs)) = Inr None"
    and "last (fst (get_device_name_from_user devices_dict exit_code (device_id # inputs)))
          = Print (if \<not> isdigit device_id then wrong_input else wrong_device_id)"
    and "list_all (\<lambda>e. \<not> is_session e)
          (fst (get_device_name_from_user devices_dict exit_code (device_id # inputs)))"
proof -
  obtain rows where rows: "table_rows devices_dict 1 (sort (map fst devices_dict)) = (rows, None)"
    using table_shown by blast
  have norows: "list_all (\<lambda>e. \<not> is_session e) rows"
    using table_rows_no_session [of devices_dict 1 "sort (map fst devices_dict)"] rows by simp
  show "snd (get_device_name_from_user devices_dict exit_code (device_id # inputs)) = Inr None"
    using assms rows by (auto simp: get_device_name_from_user_def Let_def)
  show "last (fst (get_device_name_from_user devices_dict exit_code (device_id # inputs)))
          = Print (if \<not> isdigit device_id then wrong_input else wrong_device_id)"
    using assms rows by (auto simp: get_device_name_from_user_def Let_def)
  show "list_all (\<lambda>e. \<not> is_session e)
          (fst (get_device_name_from_user devices_dict exit_code (device_id # inputs)))"
    using assms rows norows by (auto simp: get_device_name_from_user_def Let_def is_session_def)
qed


text \<open>A line of zeros passes both tests, and index \<open>-1\<close> is the last device name.\<close>

lemma device_prompt_zero:
  assumes "devices_dict \<noteq> []" and "device_id \<noteq> exit_code"
    and "isdigit device_id" and "py_int device_id = Inr 0"
  shows "snd (get_device_name_from_user devices_dict exit_code (device_id # inputs))
          = Inr (Some (last (sort (map fst devices_dict))))"
proof -
  obtain rows where rows: "table_rows devices_dict 1 (sort (map fst devices_dict)) = (rows, None)"
    using table_shown by blast
  let ?names = "sort (map fst devices_dict)"
  have ne: "?names \<noteq> []" using assms(1) by (metis length_0_conv length_map length_sort)
  then have "py_index ?names (- 1) = Inr (?names ! (length ?names - 1))"
    by (auto simp: py_index_def nat_diff_distrib' Suc_le_eq)
  also have "?names ! (length ?names - 1) = last ?names"
    using ne by (simp add: last_conv_nth)
  finally have idx: "py_index ?names (- 1) = Inr (last ?names)" .
  show ?thesis
    using assms rows idx by (simp add: get_device_name_from_user_def Let_def)
qed

text \<open>A line of digits on which \<open>int\<close> raises ends the prompt, and the loop, with that
  error: a superscript digit does.\<close>

lemma device_prompt_value_error:
  assumes "device_id \<noteq> exit_code" and "isdigit device_id" and "py_int device_id = Inl e"
  shows "snd (get_device_name_from_user devices_dict exit_code (device_id # inputs)) = Inl e"
proof -
  obtain rows where rows: "table_rows devices_dict 1 (sort (map fst devices_dict)) = (rows, None)"
    using table_shown by blast
  show ?thesis
    using assms rows by (simp add: get_device_name_from_user_def Let_def)
qed

lemma shell_loop_superscript_two:
  "snd (shell_loop two_devices [[CHR 0xB2], ''q'']) = Some ValueError"
proof -
  have d: "isdigit [CHR 0xB2]" by (simp add: isdigit_def is_digit_char_def)
  have i: "py_int [CHR 0xB2] = Inl ValueError" by (simp add: py_int_def is_decimal_char_def)
  have q: "[CHR 0xB2] \<noteq> ''q''" by simp
  have "snd (get_device_name_from_user two_devices ''q'' [[CHR 0xB2], ''q'']) = Inl ValueError"
    using q d i by (rule device_prompt_value_error)
  then obtain events where
    "get_device_name_from_user two_devices ''q'' [[CHR 0xB2], ''q''] = (events, Inl ValueError)"
    by (cases "get_device_name_from_user two_devices ''q'' [[CHR 0xB2], ''q'']") simp
  moreover have "two_devices \<noteq> []" by (simp add: two_devices_def)
  ultimately show ?thesis by simp
qed

lemma shell_loop_reprompts:
  assumes "devices_dict \<noteq> []" and "device_id \<noteq> ''q''"
    and "\<not> isdigit device_id
      \<or> (\<exists>n. py_int device_id = Inr n \<and> int (length devices_dict) < n)"
  shows "shell_loop devices_dict (device_id # inputs) =
      (fst (get_device_name_from_user devices_dict ''q'' (device_id # inputs))
         @ fst (shell_loop devices_dict inputs),
       snd (shell_loop devices_dict inputs))"
proof -
  have "snd (get_device_name_from_user devices_dict ''q'' (device_id # inputs)) = Inr None"
    using assms(2,3) by (rule device_prompt_rejects)
  then obtain events where
    "get_device_name_from_user devices_dict ''q'' (device_id # inputs) = (events, Inr None)"
    by (cases "get_device_name_from_user devices_dict ''q'' (device_id # inputs)") simp
  then show ?thesis
    using assms(1) by (simp split: prod.splits)
qed

text \<open>
  C1. The claim: a line that is not \<open>q\<close> and is not a number from 1 to the number of
  devices selects no device, prints an error and leaves the loop waiting. The prompt
  tests \<open>int(device_id) > len(device_names)\<close> only: with the devices \<open>a_dev\<close> and \<open>b_dev\<close> the
  line \<open>0\<close> is answered exactly as the line \<open>2\<close> is, it selects \<open>b_dev\<close>, and the shell
  enters the console of \<open>b_dev\<close>.
\<close>

theorem device_prompt_accepts_zero:
  "get_device_name_from_user two_devices ''q'' [''0'', ''q'']
     = get_device_name_from_user two_devices ''q'' [''2'', ''q'']
   \<and> snd (get_device_name_from_user two_devices ''q'' [''0'', ''q'']) = Inr (Some ''b_dev'')
   \<and> filter is_session (fst (boardfarm_post_deploy_devices two_devices [''0'', ''q'']))
       = [Session ''console'' ''b_dev'']"
proof -
  have rows: "table_rows two_devices (Suc 0) [''a_dev'', ''b_dev'']
      = ([Row (Suc 0) ''a_dev'' ''debian_lan'' (Suc 0), Row 2 ''b_dev'' ''debian_wan'' (Suc 0)], None)"
    by (simp add: two_devices_def)
  have zero: "isdigit ''0''" "py_int ''0'' = Inr 0"
    and two: "isdigit ''2''" "py_int ''2'' = Inr 2"
    by (simp_all add: isdigit_def is_digit_char_def is_decimal_char_def py_int_def
        int_max_str_digits_def)
  have quit: "\<not> isdigit ''q''"
    by (simp add: isdigit_def is_digit_char_def is_decimal_char_def)
  have pick0: "py_index [''a_dev'', ''b_dev''] (- 1) = Inr ''b_dev''"
    and pick2: "py_index [''a_dev'', ''b_dev''] 1 = Inr ''b_dev''"
    by (simp_all add: py_index_def)
  have same: "get_device_name_from_user two_devices ''q'' [''0'', ''q'']
     = get_device_name_from_user two_devices ''q'' [''2'', ''q'']"
    by (simp add: get_device_name_from_user_def two_devices_names rows zero two pick0 pick2 Let_def del: table_rows.simps)
  have chosen: "snd (get_device_name_from_user two_devices ''q'' [''0'', ''q'']) = Inr (Some ''b_dev'')"
    by (simp add: get_device_name_from_user_def two_devices_names rows zero pick0 Let_def del: table_rows.simps)
  obtain shown where first: "get_device_name_from_user two_devices ''q'' [''0'', ''q''] = (shown, Inr (Some ''b_dev''))"
    and shown: "filter is_session shown = []"
    by (simp add: get_device_name_from_user_def two_devices_names rows zero pick0 Let_def is_session_def del: table_rows.simps)
  obtain shown' where last: "get_device_name_from_user two_devices ''q'' [''q''] = (shown', Inr (Some ''q''))"
    and shown': "filter is_session shown' = []"
    by (simp add: get_device_name_from_user_def two_devices_names rows Let_def is_session_def del: table_rows.simps)
  have dev: "map_of two_devices ''b_dev'' = Some \<lparr>device_type = ''debian_wan'', interactive_consoles = [''console'']\<rparr>"
    by (simp add: two_devices_def)
  have ne: "two_devices \<noteq> []" by (simp add: two_devices_def)
  have quit_loop: "shell_loop two_devices [''q''] = (shown', None)"
    using ne last by simp
  have loop: "filter is_session (fst (shell_loop two_devices [''0'', ''q''])) = [Session ''console'' ''b_dev'']"
    using ne first dev quit_loop shown shown' by (simp add: py_index_def is_session_def)
  have "filter is_session (fst (boardfarm_post_deploy_devices two_devices [''0'', ''q'']))
       = [Session ''console'' ''b_dev'']"
    using loop by (cases "shell_loop two_devices [''0'', ''q'']")
      (auto simp: boardfarm_post_deploy_devices_def Let_def is_session_def split: option.splits)
  then show ?thesis using same chosen by simp
qed

end
